theory Spec2Isabelle
  imports Main "HOL-Library.Word" "HOL-Library.Log_Nat"
begin

unbundle bit_operations_syntax

section \<open>Atomic wait/wake (Source/Runtime/Threads.cpp)\<close>

subsection \<open>Basic types\<close>

text \<open>
  \<open>U32\<close>, \<open>I32\<close> and \<open>U64\<close> are the fixed-width integers of Inline/BasicTypes.h. An
  \<open>I32\<close> is kept as its 32 bits; \<open>unat\<close> reads them as the \<open>U32(...)\<close> cast does and
  \<open>sint\<close> as the signed value. \<open>Uptr\<close> is the pointer-sized unsigned integer. Where it
  holds a container size, a host address or a zero-extended \<open>U32\<close> it is kept as a
  natural number, so comparisons between such values are exact; where the code counts
  in it with \<open>++\<close> and \<open>--\<close> (the reference count of a wait list) it is the machine word
  \<open>UptrWord\<close>, whose arithmetic wraps.
\<close>

type_synonym U32 = "32 word"
type_synonym I32 = "32 word"
type_synonym I64 = "64 word"
type_synonym U64 = "64 word"
type_synonym Uptr = nat
type_synonym Event = nat

text \<open>
  Modelled from the spec: the width of \<open>Uptr\<close> (Inline/BasicTypes.h is not part of the
  sources); the machine word of the 64-bit targets of the runtime.
\<close>

type_synonym UptrWord = "64 word"

definition UINT32_MAX :: nat where
  "UINT32_MAX = 4294967295"

definition UINT64_MAX :: U64 where
  "UINT64_MAX = 18446744073709551615"

definition UINTPTR_MAX :: UptrWord where
  "UINTPTR_MAX = 18446744073709551615"

text \<open>
  What a call can end in besides returning: the traps thrown with \<open>throwException\<close>,
  the process-ending failures of \<open>errorUnless\<close> and \<open>assert\<close>, the use of a wait list
  that has been deleted, a floating-point conversion whose value does not fit the
  target type, and a blocking wait that is never woken.
\<close>

datatype error =
    accessViolation
  | misalignedAtomicMemoryAccess
  | integerDivideByZeroOrIntegerOverflow
  | fatalError
  | assertionFailure
  | danglingWaitList
  | conversionOutOfRange
  | blocksForever

subsection \<open>Wait lists and the address table\<close>

text \<open>
  \<open>struct WaitList\<close>: the FIFO of wake events and the reference count, a
  \<open>std::atomic<Uptr>\<close>. The mutex is not a field of the model: a block of the source
  that runs under one lock is one function here.
\<close>

record WaitList =
  wakeEvents :: "Event list"
  numReferences :: UptrWord

text \<open>
  The shared state. The \<open>WaitList\<close> objects live on the heap and the table
  \<open>addressToWaitListMap\<close> holds pointers to them. \<open>waitLists\<close> is that part of the heap:
  it has one cell for every \<open>new WaitList()\<close> executed so far, in the order of
  execution, and a \<open>WaitList*\<close> is the index of a cell. The cell holds the object
  until \<open>delete\<close> runs on it and \<open>None\<close> from then on. So a pointer to a deleted list
  is never taken for a list created later, whatever the allocator does with the
  memory: reading or writing through it has no defined behaviour in C++, and is
  the outcome \<open>danglingWaitList\<close> here.

  Modelled from the spec: \<open>Platform::Event\<close> (the platform layer is not part of the
  sources) is an auto-reset event; \<open>signaledEvents s e\<close> holds when \<open>e\<close> has been
  signaled and the signal has not been consumed by a wait yet.
\<close>

type_synonym WaitListPointer = nat

record Runtime =
  waitLists :: "WaitList option list"
  addressToWaitListMap :: "Uptr \<rightharpoonup> WaitListPointer"
  signaledEvents :: "Event \<Rightarrow> bool"

text \<open>Reading the object behind a \<open>WaitList*\<close>, writing it, and \<open>delete\<close>.\<close>

definition lookupWaitList :: "Runtime \<Rightarrow> WaitListPointer \<Rightarrow> WaitList option" where
  "lookupWaitList s waitList =
     (if waitList < length (waitLists s) then waitLists s ! waitList else None)"

definition storeWaitList :: "WaitListPointer \<Rightarrow> WaitList \<Rightarrow> Runtime \<Rightarrow> Runtime" where
  "storeWaitList waitList object s = s\<lparr>waitLists := (waitLists s)[waitList := Some object]\<rparr>"

definition deleteWaitList :: "WaitListPointer \<Rightarrow> Runtime \<Rightarrow> Runtime" where
  "deleteWaitList waitList s = s\<lparr>waitLists := (waitLists s)[waitList := None]\<rparr>"

text \<open>\<open>WaitList()\<close>: no wake events, one reference.\<close>

definition newWaitList :: WaitList where
  "newWaitList = \<lparr>wakeEvents = [], numReferences = 1\<rparr>"

text \<open>
  \<open>openWaitList\<close> (lines 48 to 63), under the address-table mutex. It returns the
  pointer. \<open>++mapIt->second->numReferences\<close> is the increment of the machine word.
\<close>

definition openWaitList :: "Uptr \<Rightarrow> Runtime \<Rightarrow> error + (WaitListPointer \<times> Runtime)" where
  "openWaitList address s =
     (case addressToWaitListMap s address of
        Some waitList \<Rightarrow>
          (case lookupWaitList s waitList of
             None \<Rightarrow> Inl danglingWaitList
           | Some object \<Rightarrow>
               Inr (waitList,
                    storeWaitList waitList (object\<lparr>numReferences := numReferences object + 1\<rparr>) s))
      | None \<Rightarrow>
          let waitList = length (waitLists s)
          in Inr (waitList,
                  s\<lparr>waitLists := waitLists s @ [Some newWaitList],
                    addressToWaitListMap := (addressToWaitListMap s)(address \<mapsto> waitList)\<rparr>))"

text \<open>
  \<open>closeWaitList\<close> (lines 66 to 78), in its two atomic parts, between which other
  threads can run. \<open>closeWaitList_decrement\<close> is the atomic
  \<open>--waitList->numReferences == 0\<close> of line 68 and tells whether the count reached 0.
  \<open>closeWaitList_recheck\<close> is the block of lines 70 to 76 under the address-table
  mutex: it reads the count again through the pointer the thread holds, and when
  that is 0 it asserts, deletes the object and erases whatever entry the table has
  for \<open>address\<close>. \<open>closeWaitList\<close> is the two parts run by one thread with no other
  thread in between.
\<close>

definition closeWaitList_decrement ::
  "WaitListPointer \<Rightarrow> Runtime \<Rightarrow> error + (bool \<times> Runtime)" where
  "closeWaitList_decrement waitList s =
     (case lookupWaitList s waitList of
        None \<Rightarrow> Inl danglingWaitList
      | Some object \<Rightarrow>
          let n = numReferences object - 1
          in Inr (n = 0, storeWaitList waitList (object\<lparr>numReferences := n\<rparr>) s))"

definition closeWaitList_recheck ::
  "Uptr \<Rightarrow> WaitListPointer \<Rightarrow> Runtime \<Rightarrow> error + Runtime" where
  "closeWaitList_recheck address waitList s =
     (case lookupWaitList s waitList of
        None \<Rightarrow> Inl danglingWaitList
      | Some object \<Rightarrow>
          if numReferences object = 0
          then (if wakeEvents object \<noteq> [] then Inl assertionFailure
                else Inr ((deleteWaitList waitList s)
                       \<lparr>addressToWaitListMap := (addressToWaitListMap s)(address := None)\<rparr>))
          else Inr s)"

definition closeWaitList :: "Uptr \<Rightarrow> WaitListPointer \<Rightarrow> Runtime \<Rightarrow> error + Runtime" where
  "closeWaitList address waitList s =
     (case closeWaitList_decrement waitList s of
        Inl e \<Rightarrow> Inl e
      | Inr (reachedZero, s') \<Rightarrow>
          if reachedZero then closeWaitList_recheck address waitList s' else Inr s')"

subsection \<open>Platform events\<close>

text \<open>
  Modelled from the spec: \<open>Platform::signalEvent\<close> and \<open>Platform::waitForEvent\<close>, which
  are not part of the sources. Signaling sets the event. Waiting returns true and
  resets the event when it is signaled, and false when the deadline passes first; a
  wait with the infinite deadline \<open>UINT64_MAX\<close> on an event that is never signaled
  does not return. The state handed to \<open>waitForEvent\<close> is the shared state at the
  moment the blocking call ends.
\<close>

definition signalEvent :: "Event \<Rightarrow> Runtime \<Rightarrow> Runtime" where
  "signalEvent e s = s\<lparr>signaledEvents := (signaledEvents s)(e := True)\<rparr>"

definition waitForEvent :: "Event \<Rightarrow> U64 \<Rightarrow> Runtime \<Rightarrow> error + (bool \<times> Runtime)" where
  "waitForEvent e untilTime s =
     (if signaledEvents s e
      then Inr (True, s\<lparr>signaledEvents := (signaledEvents s)(e := False)\<rparr>)
      else if untilTime = UINT64_MAX then Inl blocksForever
      else Inr (False, s))"

subsection \<open>wakeAddress\<close>

text \<open>The loop that signals \<open>wakeEvents[wakeIndex]\<close> for \<open>wakeIndex < actualNumToWake\<close>.\<close>

function signalLoop :: "nat \<Rightarrow> nat \<Rightarrow> Event list \<Rightarrow> Runtime \<Rightarrow> Runtime" where
  "signalLoop wakeIndex actualNumToWake events s =
     (if wakeIndex < actualNumToWake
      then signalLoop (wakeIndex + 1) actualNumToWake events
             (signalEvent (events ! wakeIndex) s)
      else s)"
  by pat_completeness auto
termination
  by (relation "measure (\<lambda>(wakeIndex, actualNumToWake, events, s). actualNumToWake - wakeIndex)")
     auto

declare signalLoop.simps [simp del]

text \<open>
  The block of \<open>wakeAddress\<close> under the lock of the wait list (lines 181 to 198): it
  yields \<open>actualNumToWake\<close>, a \<open>Uptr\<close> that holds the count zero-extended or the size of
  the vector.
\<close>

definition wakeAddress_locked ::
  "WaitListPointer \<Rightarrow> U32 \<Rightarrow> Runtime \<Rightarrow> error + (nat \<times> Runtime)" where
  "wakeAddress_locked waitList numToWake s =
     (case lookupWaitList s waitList of
        None \<Rightarrow> Inl danglingWaitList
      | Some object \<Rightarrow>
          let actualNumToWake =
                (if unat numToWake = UINT32_MAX \<or> unat numToWake > length (wakeEvents object)
                 then length (wakeEvents object) else unat numToWake);
              s' = signalLoop 0 actualNumToWake (wakeEvents object) s
          in Inr (actualNumToWake,
                  storeWaitList waitList
                    (object\<lparr>wakeEvents := drop actualNumToWake (wakeEvents object)\<rparr>) s'))"

text \<open>
  \<open>wakeAddress\<close> (lines 173 to 206). The result pairs what the call ends in with the
  shared state it leaves: the \<open>integerDivideByZeroOrIntegerOverflow\<close> trap is thrown
  after the wait list has been updated and closed.
\<close>

definition wakeAddress :: "Uptr \<Rightarrow> U32 \<Rightarrow> Runtime \<Rightarrow> (error + U32) \<times> Runtime" where
  "wakeAddress address numToWake s =
     (if numToWake = 0 then (Inr 0, s)
      else
        case openWaitList address s of
          Inl e \<Rightarrow> (Inl e, s)
        | Inr (waitList, s1) \<Rightarrow>
            (case wakeAddress_locked waitList numToWake s1 of
               Inl e \<Rightarrow> (Inl e, s1)
             | Inr (actualNumToWake, s3) \<Rightarrow>
                 (case closeWaitList address waitList s3 of
                    Inl e \<Rightarrow> (Inl e, s3)
                  | Inr s4 \<Rightarrow>
                      if actualNumToWake > UINT32_MAX
                      then (Inl integerDivideByZeroOrIntegerOverflow, s4)
                      else (Inr (of_nat actualNumToWake), s4))))"

subsection \<open>Doubles\<close>

text \<open>
  \<open>F64\<close> is an IEEE-754 binary64 value: a NaN, an infinity with its sign (\<open>True\<close> for
  the negative one), or a finite value, kept as the rational number it denotes (both
  zeros are \<open>Finite 0\<close>; no operation below tells them apart). \<open>f64_round\<close> is rounding
  to the nearest binary64 value, ties to even: 53 significant bits, least exponent
  \<open>-1022\<close>, overflow to an infinity from \<open>2 ^ 1024\<close> on.
\<close>

datatype F64 = NaN | Infinity bool | Finite rat

definition pow2 :: "int \<Rightarrow> rat" where
  "pow2 k = (if 0 \<le> k then 2 ^ nat k else 1 / 2 ^ nat (- k))"

text \<open>The binary exponent \<open>\<lfloor>log\<^sub>2 a\<rfloor>\<close> of a positive rational.\<close>

definition ilog2 :: "rat \<Rightarrow> int" where
  "ilog2 a =
     (let (p, d) = quotient_of a; k = bitlen p - bitlen d
      in if pow2 k \<le> a then k else k - 1)"

definition roundHalfEven :: "rat \<Rightarrow> int" where
  "roundHalfEven x =
     (let f = \<lfloor>x\<rfloor>; r = x - of_int f
      in if r < 1 / 2 then f
         else if 1 / 2 < r then f + 1
         else if even f then f else f + 1)"

definition f64_round :: "rat \<Rightarrow> F64" where
  "f64_round q =
     (if q = 0 then Finite 0
      else
        let a = \<bar>q\<bar>;
            e = max (ilog2 a) (- 1022);
            ulp = pow2 (e - 52);
            r = of_int (roundHalfEven (a / ulp)) * ulp
        in if pow2 1024 \<le> r then Infinity (q < 0)
           else Finite (if q < 0 then - r else r))"

fun f64_mul :: "F64 \<Rightarrow> F64 \<Rightarrow> F64" where
  "f64_mul NaN y = NaN"
| "f64_mul x NaN = NaN"
| "f64_mul (Infinity a) (Infinity b) = Infinity (a \<noteq> b)"
| "f64_mul (Infinity a) (Finite y) = (if y = 0 then NaN else Infinity (a \<noteq> (y < 0)))"
| "f64_mul (Finite x) (Infinity b) = (if x = 0 then NaN else Infinity ((x < 0) \<noteq> b))"
| "f64_mul (Finite x) (Finite y) = f64_round (x * y)"

fun isnan :: "F64 \<Rightarrow> bool" where
  "isnan NaN = True"
| "isnan x = False"

fun isfinite :: "F64 \<Rightarrow> bool" where
  "isfinite (Finite x) = True"
| "isfinite x = False"

text \<open>The comparison \<open><=\<close> of two doubles: false when either is a NaN.\<close>

fun f64_le :: "F64 \<Rightarrow> F64 \<Rightarrow> bool" where
  "f64_le NaN y = False"
| "f64_le x NaN = False"
| "f64_le (Infinity a) (Infinity b) = (a \<or> \<not> b)"
| "f64_le (Infinity a) (Finite y) = a"
| "f64_le (Finite x) (Infinity b) = (\<not> b)"
| "f64_le (Finite x) (Finite y) = (x \<le> y)"

text \<open>The conversion \<open>F64(n)\<close> of a \<open>U64\<close>: the nearest double.\<close>

definition F64_of_U64 :: "U64 \<Rightarrow> F64" where
  "F64_of_U64 n = f64_round (of_nat (unat n))"

text \<open>
  The conversion \<open>U64(x)\<close> of a double: the value truncated towards zero when that
  fits a \<open>U64\<close>; otherwise the conversion has no defined result (\<open>None\<close>).
\<close>

definition truncateTowardZero :: "rat \<Rightarrow> int" where
  "truncateTowardZero q = (if 0 \<le> q then \<lfloor>q\<rfloor> else \<lceil>q\<rceil>)"

fun U64_of_F64 :: "F64 \<Rightarrow> U64 option" where
  "U64_of_F64 (Finite q) =
     (if - 1 < q \<and> q < 2 ^ 64 then Some (of_int (truncateTowardZero q)) else None)"
| "U64_of_F64 x = None"

subsection \<open>getEndTimeFromTimeout\<close>

text \<open>
  \<open>getEndTimeFromTimeout\<close> (lines 101 to 118). \<open>errorUnless\<close> ends the process when
  its condition fails: \<open>Inl fatalError\<close>.
\<close>

definition getEndTimeFromTimeout :: "U64 \<Rightarrow> F64 \<Rightarrow> error + U64" where
  "getEndTimeFromTimeout startTime timeout =
     (let timeoutMicroseconds = f64_mul timeout (Finite 1000)
      in if \<not> isnan timeoutMicroseconds \<and> isfinite timeoutMicroseconds
         then
           if f64_le timeoutMicroseconds (Finite 0) then Inr startTime
           else if f64_le timeoutMicroseconds (F64_of_U64 (UINT64_MAX - 1))
           then (case U64_of_F64 timeoutMicroseconds of
                   None \<Rightarrow> Inl conversionOutOfRange
                 | Some microseconds \<Rightarrow>
                     let endTime = startTime + microseconds
                     in if endTime \<ge> startTime then Inr endTime else Inl fatalError)
           else Inr UINT64_MAX
         else Inr UINT64_MAX)"

subsection \<open>waitOnAddress\<close>

text \<open>
  What a call of \<open>waitOnAddress\<close> takes from outside the shared state: the value the
  sequentially consistent load finds at each address, the two readings of
  \<open>Platform::getMonotonicClock\<close>, the event \<open>Platform::createEvent\<close> hands out, and what
  the other threads do to the shared state at the two places where this thread holds
  no lock and they can run: while it is blocked on its wake event, and between the
  return of a timed-out wait and the locking of the wait list.
\<close>

record 'v Environment =
  memoryContents :: "Uptr \<Rightarrow> 'v"
  monotonicClock :: U64
  monotonicClockAfterTimeout :: U64
  createdEvent :: Event
  otherThreadsWhileBlocked :: "Runtime \<Rightarrow> Runtime"
  otherThreadsBeforeRelock :: "Runtime \<Rightarrow> Runtime"

text \<open>\<open>waitList->wakeEvents.push_back(threadWakeEvent)\<close>.\<close>

definition pushWakeEvent :: "WaitListPointer \<Rightarrow> Event \<Rightarrow> Runtime \<Rightarrow> error + Runtime" where
  "pushWakeEvent waitList wakeEvent s =
     (case lookupWaitList s waitList of
        None \<Rightarrow> Inl danglingWaitList
      | Some object \<Rightarrow>
          Inr (storeWaitList waitList (object\<lparr>wakeEvents := wakeEvents object @ [wakeEvent]\<rparr>) s))"

text \<open>
  The block taken when the blocking wait returned false (lines 153 to 166): under
  the wait-list lock, \<open>std::find\<close> the event; erase its first occurrence and report the
  time-out, or consume the pending signal with a wait that expires at once.
\<close>

definition waitOnAddress_timedOut ::
  "U64 \<Rightarrow> WaitListPointer \<Rightarrow> Event \<Rightarrow> Runtime \<Rightarrow> error + (bool \<times> Runtime)" where
  "waitOnAddress_timedOut now waitList wakeEvent s =
     (case lookupWaitList s waitList of
        None \<Rightarrow> Inl danglingWaitList
      | Some object \<Rightarrow>
          if wakeEvent \<in> set (wakeEvents object)
          then Inr (True,
                 storeWaitList waitList
                   (object\<lparr>wakeEvents := remove1 wakeEvent (wakeEvents object)\<rparr>) s)
          else (case waitForEvent wakeEvent now s of
                  Inl e \<Rightarrow> Inl e
                | Inr (signaled, s') \<Rightarrow>
                    if signaled then Inr (False, s') else Inl fatalError))"

text \<open>The event of the thread: the one it has, or the one created at line 141.\<close>

definition threadEvent :: "'v Environment \<Rightarrow> Event option \<Rightarrow> Event" where
  "threadEvent env threadWakeEvent =
     (case threadWakeEvent of None \<Rightarrow> createdEvent env | Some e \<Rightarrow> e)"

text \<open>
  \<open>waitOnAddress\<close> (lines 120 to 171), for both instances of the template: \<open>'v\<close> is
  the type of the cell. \<open>threadWakeEvent\<close> is the thread-local event pointer (\<open>None\<close> for
  \<open>nullptr\<close>); its value after the call is the second component of the result.
\<close>

definition waitOnAddress ::
  "'v Environment \<Rightarrow> Event option \<Rightarrow> Uptr \<Rightarrow> 'v \<Rightarrow> F64 \<Rightarrow> Runtime
     \<Rightarrow> (error + U32) \<times> Event option \<times> Runtime" where
  "waitOnAddress env threadWakeEvent valuePointer expectedValue timeout s =
     (case getEndTimeFromTimeout (monotonicClock env) timeout of
        Inl e \<Rightarrow> (Inl e, threadWakeEvent, s)
      | Inr endTime \<Rightarrow>
          let address = valuePointer
          in case openWaitList address s of
               Inl e \<Rightarrow> (Inl e, threadWakeEvent, s)
             | Inr (waitList, s1) \<Rightarrow>
                 if memoryContents env valuePointer \<noteq> expectedValue
                 then (case closeWaitList address waitList s1 of
                         Inl e \<Rightarrow> (Inl e, threadWakeEvent, s1)
                       | Inr s2 \<Rightarrow> (Inr 1, threadWakeEvent, s2))
                 else
                   let wakeEvent = threadEvent env threadWakeEvent
                   in case pushWakeEvent waitList wakeEvent s1 of
                        Inl e \<Rightarrow> (Inl e, Some wakeEvent, s1)
                      | Inr s2 \<Rightarrow>
                          let waited =
                                (case waitForEvent wakeEvent endTime
                                        (otherThreadsWhileBlocked env s2) of
                                   Inl e \<Rightarrow> Inl e
                                 | Inr (signaled, s3) \<Rightarrow>
                                     if \<not> signaled
                                     then waitOnAddress_timedOut (monotonicClockAfterTimeout env)
                                            waitList wakeEvent (otherThreadsBeforeRelock env s3)
                                     else Inr (False, s3))
                          in case waited of
                               Inl e \<Rightarrow> (Inl e, Some wakeEvent, s2)
                             | Inr (timedOut, s4) \<Rightarrow>
                                 (case closeWaitList address waitList s4 of
                                    Inl e \<Rightarrow> (Inl e, Some wakeEvent, s4)
                                  | Inr s5 \<Rightarrow>
                                      (Inr (if timedOut then 2 else 0), Some wakeEvent, s5)))"

subsection \<open>The intrinsics\<close>

text \<open>
  Modelled from the spec: \<open>MemoryInstance\<close> and \<open>memoryRef\<close> (RuntimePrivate.h is not
  part of the sources). The memory that \<open>getMemoryFromRuntimeData\<close> resolves has a
  host base address and an end offset; \<open>memoryRef\<close> is the cell at the base address
  plus the offset read as a \<open>U32\<close>. The three intrinsics are lines 215 to 248.
\<close>

record MemoryInstance =
  baseAddress :: Uptr
  endOffset :: Uptr

definition memoryRef :: "MemoryInstance \<Rightarrow> I32 \<Rightarrow> Uptr" where
  "memoryRef memoryInstance addressOffset = baseAddress memoryInstance + unat addressOffset"

definition atomic_wake ::
  "MemoryInstance \<Rightarrow> I32 \<Rightarrow> I32 \<Rightarrow> Runtime \<Rightarrow> (error + U32) \<times> Runtime" where
  "atomic_wake memoryInstance addressOffset numToWake s =
     (if unat addressOffset > endOffset memoryInstance then (Inl accessViolation, s)
      else if addressOffset AND 3 \<noteq> 0 then (Inl misalignedAtomicMemoryAccess, s)
      else wakeAddress (memoryRef memoryInstance addressOffset) numToWake s)"

definition atomic_wait_i32 ::
  "I32 Environment \<Rightarrow> Event option \<Rightarrow> MemoryInstance \<Rightarrow> I32 \<Rightarrow> I32 \<Rightarrow> F64 \<Rightarrow> Runtime
     \<Rightarrow> (error + U32) \<times> Event option \<times> Runtime" where
  "atomic_wait_i32 env threadWakeEvent memoryInstance addressOffset expectedValue timeout s =
     (if unat addressOffset > endOffset memoryInstance
      then (Inl accessViolation, threadWakeEvent, s)
      else if addressOffset AND 3 \<noteq> 0
      then (Inl misalignedAtomicMemoryAccess, threadWakeEvent, s)
      else waitOnAddress env threadWakeEvent (memoryRef memoryInstance addressOffset)
             expectedValue timeout s)"

definition atomic_wait_i64 ::
  "I64 Environment \<Rightarrow> Event option \<Rightarrow> MemoryInstance \<Rightarrow> I32 \<Rightarrow> I64 \<Rightarrow> F64 \<Rightarrow> Runtime
     \<Rightarrow> (error + U32) \<times> Event option \<times> Runtime" where
  "atomic_wait_i64 env threadWakeEvent memoryInstance addressOffset expectedValue timeout s =
     (if unat addressOffset > endOffset memoryInstance
      then (Inl accessViolation, threadWakeEvent, s)
      else if addressOffset AND 7 \<noteq> 0
      then (Inl misalignedAtomicMemoryAccess, threadWakeEvent, s)
      else waitOnAddress env threadWakeEvent (memoryRef memoryInstance addressOffset)
             expectedValue timeout s)"

subsection \<open>Callers of openWaitList and closeWaitList running together\<close>

text \<open>
  \<open>waitOnAddress\<close> and \<open>wakeAddress\<close> call \<open>openWaitList\<close>, work on the list under its
  lock, and call \<open>closeWaitList\<close>; any number of threads do so at the same time. What
  one caller has in hand is the address and the pointer, and where it is: between
  its \<open>openWaitList\<close> and line 68 of its \<open>closeWaitList\<close> (\<open>Holding\<close>), or past line 68
  with the count found to be 0 and before the block of lines 70 to 76
  (\<open>Rechecking\<close>). A caller whose decrement did not reach 0 is done.
\<close>

datatype Phase = Holding | Rechecking

type_synonym Handle = "Uptr \<times> WaitListPointer \<times> Phase"

type_synonym System = "Runtime \<times> Handle list"

text \<open>
  The atomic steps of the callers: \<open>openWaitList\<close>, which is one step under the
  address-table mutex; a change of \<open>wakeEvents\<close> by a caller that holds the list
  (\<open>push_back\<close> and \<open>erase\<close>, under the lock of the list); line 68; and lines 70 to 76.
  A step named for a caller that is not at that place changes nothing.
\<close>

datatype Action =
    Opens Uptr
  | ChangesEvents Uptr WaitListPointer "Event list"
  | Decrements Uptr WaitListPointer
  | Rechecks Uptr WaitListPointer

fun perform :: "Action \<Rightarrow> System \<Rightarrow> error + System" where
  "perform (Opens address) (s, handles) =
     (case openWaitList address s of
        Inl e \<Rightarrow> Inl e
      | Inr (waitList, s') \<Rightarrow> Inr (s', (address, waitList, Holding) # handles))"
| "perform (ChangesEvents address waitList events) (s, handles) =
     (if (address, waitList, Holding) \<in> set handles
      then (case lookupWaitList s waitList of
              None \<Rightarrow> Inl danglingWaitList
            | Some object \<Rightarrow>
                Inr (storeWaitList waitList (object\<lparr>wakeEvents := events\<rparr>) s, handles))
      else Inr (s, handles))"
| "perform (Decrements address waitList) (s, handles) =
     (if (address, waitList, Holding) \<in> set handles
      then (case closeWaitList_decrement waitList s of
              Inl e \<Rightarrow> Inl e
            | Inr (reachedZero, s') \<Rightarrow>
                Inr (s', (if reachedZero then [(address, waitList, Rechecking)] else [])
                         @ remove1 (address, waitList, Holding) handles))
      else Inr (s, handles))"
| "perform (Rechecks address waitList) (s, handles) =
     (if (address, waitList, Rechecking) \<in> set handles
      then (case closeWaitList_recheck address waitList s of
              Inl e \<Rightarrow> Inl e
            | Inr s' \<Rightarrow> Inr (s', remove1 (address, waitList, Rechecking) handles))
      else Inr (s, handles))"

text \<open>An interleaving is the list of the steps in the order in which they happen.\<close>

fun run :: "Action list \<Rightarrow> System \<Rightarrow> error + System" where
  "run [] S = Inr S"
| "run (action # actions) S =
     (case perform action S of
        Inl e \<Rightarrow> Inl e
      | Inr S' \<Rightarrow> run actions S')"

text \<open>
  The interleavings in which there are never more callers at once than the
  reference count can count.
\<close>

fun callersBounded :: "Action list \<Rightarrow> System \<Rightarrow> bool" where
  "callersBounded [] S = (length (snd S) \<le> unat UINTPTR_MAX)"
| "callersBounded (action # actions) S =
     (length (snd S) \<le> unat UINTPTR_MAX \<and>
      (case perform action S of
         Inl e \<Rightarrow> True
       | Inr S' \<Rightarrow> callersBounded actions S'))"

text \<open>The number of callers that hold a list.\<close>

definition holders :: "Handle list \<Rightarrow> WaitListPointer \<Rightarrow> nat" where
  "holders handles waitList =
     length (filter (\<lambda>(address, held, phase). held = waitList \<and> phase = Holding) handles)"

text \<open>
  The invariant of the table and the callers. Every entry of the table points to a
  list that has not been deleted, whose reference count is the number of callers
  that hold it, and is 0 only while a caller is about to re-check it. No two
  entries share a list, and every list that has not been deleted has its entry.
  The pointer of a caller is one that \<open>new\<close> has returned; a caller that holds a
  list has it from the entry of its address, and so has a caller about to re-check
  unless the list has been deleted.
\<close>

definition entriesCounted :: "System \<Rightarrow> bool" where
  "entriesCounted S \<longleftrightarrow>
     (\<forall>a p. addressToWaitListMap (fst S) a = Some p \<longrightarrow>
        (\<exists>object. lookupWaitList (fst S) p = Some object \<and>
           unat (numReferences object) = holders (snd S) p \<and>
           (numReferences object = 0 \<longrightarrow> (a, p, Rechecking) \<in> set (snd S))))"

definition tableOneToOne :: "System \<Rightarrow> bool" where
  "tableOneToOne S \<longleftrightarrow>
     (\<forall>a b p. addressToWaitListMap (fst S) a = Some p \<and> addressToWaitListMap (fst S) b = Some p
        \<longrightarrow> a = b) \<and>
     (\<forall>p. lookupWaitList (fst S) p \<noteq> None \<longrightarrow> (\<exists>a. addressToWaitListMap (fst S) a = Some p))"

definition handlesValid :: "System \<Rightarrow> bool" where
  "handlesValid S \<longleftrightarrow>
     (\<forall>(a, p, phase) \<in> set (snd S).
        p < length (waitLists (fst S)) \<and>
        (phase = Holding \<or> lookupWaitList (fst S) p \<noteq> None \<longrightarrow>
           addressToWaitListMap (fst S) a = Some p))"

definition systemInvariant :: "System \<Rightarrow> bool" where
  "systemInvariant S \<longleftrightarrow> entriesCounted S \<and> tableOneToOne S \<and> handlesValid S"

subsection \<open>Notions used in the statements\<close>

text \<open>
  The wait list that the table has for an address, when the entry points to a list
  that has not been deleted, and the wake events registered for the address, oldest
  first.
\<close>

definition waitListAt :: "Runtime \<Rightarrow> Uptr \<Rightarrow> WaitList option" where
  "waitListAt s address =
     (case addressToWaitListMap s address of
        None \<Rightarrow> None
      | Some waitList \<Rightarrow> lookupWaitList s waitList)"


text \<open>The wake events of the list behind a pointer; none once it is deleted.\<close>

definition wakeEventsOf :: "Runtime \<Rightarrow> WaitListPointer \<Rightarrow> Event list" where
  "wakeEventsOf s waitList =
     (case lookupWaitList s waitList of
        None \<Rightarrow> []
      | Some object \<Rightarrow> wakeEvents object)"

text \<open>
  The number of events a wake is to take from a list: \<open>min(count, size)\<close>, where the
  count \<open>UINT32_MAX\<close> stands for all of them.
\<close>

definition numWoken :: "U32 \<Rightarrow> Event list \<Rightarrow> nat" where
  "numWoken count events =
     (if unat count = UINT32_MAX then length events else min (unat count) (length events))"

text \<open>
  Two conditions on the state in which a call finds the table. \<open>danglingEntry\<close>: the
  entry of the address points to a list that has been deleted. \<open>unreferencedAt\<close>:
  the list of the address has a reference count of 0, as it has between line 68 and
  line 70 of the \<open>closeWaitList\<close> of its last holder.
\<close>

definition danglingEntry :: "Runtime \<Rightarrow> Uptr \<Rightarrow> bool" where
  "danglingEntry s address =
     (case addressToWaitListMap s address of
        None \<Rightarrow> False
      | Some waitList \<Rightarrow> lookupWaitList s waitList = None)"



text \<open>
  The state in which a thread that calls \<open>waitOnAddress\<close> blocks: the wait list
  opened and the event of the thread appended to it.
\<close>

definition registered :: "'v Environment \<Rightarrow> Event option \<Rightarrow> Uptr \<Rightarrow> Runtime \<Rightarrow> Runtime" where
  "registered env threadWakeEvent address s =
     (case openWaitList address s of
        Inl e \<Rightarrow> s
      | Inr (waitList, s1) \<Rightarrow>
          (case pushWakeEvent waitList (threadEvent env threadWakeEvent) s1 of
             Inl e \<Rightarrow> s1
           | Inr s2 \<Rightarrow> s2))"

text \<open>
  A state with the first occurrence of an event taken out of a wait list, and a state
  with the pending signal of an event consumed.
\<close>

definition removeWakeEvent :: "WaitListPointer \<Rightarrow> Event \<Rightarrow> Runtime \<Rightarrow> Runtime" where
  "removeWakeEvent waitList wakeEvent s =
     (case lookupWaitList s waitList of
        None \<Rightarrow> s
      | Some object \<Rightarrow>
          storeWaitList waitList
            (object\<lparr>wakeEvents := remove1 wakeEvent (wakeEvents object)\<rparr>) s)"

definition consumeSignal :: "Event \<Rightarrow> Runtime \<Rightarrow> Runtime" where
  "consumeSignal wakeEvent s = s\<lparr>signaledEvents := (signaledEvents s)(wakeEvent := False)\<rparr>"

subsection \<open>Example states\<close>

definition exampleMemory :: MemoryInstance where
  "exampleMemory = \<lparr>baseAddress = 4096, endOffset = 65536\<rparr>"

definition idleRuntime :: Runtime where
  "idleRuntime =
     \<lparr>waitLists = [], addressToWaitListMap = Map.empty, signaledEvents = (\<lambda>e. False)\<rparr>"

text \<open>An environment in which every cell holds \<open>v\<close> and no other thread runs.\<close>

definition quietEnvironment :: "'v \<Rightarrow> 'v Environment" where
  "quietEnvironment v =
     \<lparr>memoryContents = (\<lambda>a. v), monotonicClock = 1000, monotonicClockAfterTimeout = 2000,
      createdEvent = 7, otherThreadsWhileBlocked = (\<lambda>s. s),
      otherThreadsBeforeRelock = (\<lambda>s. s)\<rparr>"


text \<open>One thread holds the wait list of the cell at 4096 open; nobody waits.\<close>

definition oneHolder :: Runtime where
  "oneHolder =
     \<lparr>waitLists = [Some \<lparr>wakeEvents = [], numReferences = 1\<rparr>],
      addressToWaitListMap = [4096 \<mapsto> 0],
      signaledEvents = (\<lambda>e. False)\<rparr>"

text \<open>
  The state that \<open>oneHolder\<close> becomes when that thread has run line 68 of its
  \<open>closeWaitList\<close> and not yet line 70.
\<close>

definition afterDecrement :: Runtime where
  "afterDecrement =
     \<lparr>waitLists = [Some \<lparr>wakeEvents = [], numReferences = 0\<rparr>],
      addressToWaitListMap = [4096 \<mapsto> 0],
      signaledEvents = (\<lambda>e. False)\<rparr>"



text \<open>
  An environment in which, while the thread is blocked, another thread calls
  \<open>wakeAddress\<close> on the cell at 4096 with a count of 1.
\<close>

definition wakingEnvironment :: "'v \<Rightarrow> 'v Environment" where
  "wakingEnvironment v =
     (quietEnvironment v)\<lparr>otherThreadsWhileBlocked := (\<lambda>s. snd (wakeAddress 4096 1 s))\<rparr>"

text \<open>
  An environment in which that call of \<open>wakeAddress\<close> comes later: after the wait of
  the thread has timed out and before the thread has locked the wait list again.
\<close>

definition lateWakingEnvironment :: "'v \<Rightarrow> 'v Environment" where
  "lateWakingEnvironment v =
     (quietEnvironment v)\<lparr>otherThreadsBeforeRelock := (\<lambda>s. snd (wakeAddress 4096 1 s))\<rparr>"

text \<open>
  The idle state after one wait list has been created and deleted again.
\<close>

definition emptiedRuntime :: Runtime where
  "emptiedRuntime =
     \<lparr>waitLists = [None], addressToWaitListMap = Map.empty, signaledEvents = (\<lambda>e. False)\<rparr>"

section \<open>Module emission (Lib/LLVMJIT/LLVMEmitModule.cpp)\<close>

subsection \<open>The WebAssembly module\<close>

text \<open>
  Modelled from the spec: the module of IR/Module.h, which is not part of the
  sources. \<open>types\<close> is the sequence of function signatures; the functions are the
  imports followed by the definitions, each with the index of its type
  (\<open>type.index\<close>); of the tables, memories, globals and exception types the emitter
  uses the number only. \<open>functions_getType\<close> is \<open>functions.getType\<close>, the type index
  of the function with a given index; an index past the end of a vector is an error
  of the model.
\<close>

datatype ValueType = i32 | i64 | f32 | f64 | v128 | anyref | anyfunc | nullref

record FunctionType =
  results :: "ValueType list"
  params :: "ValueType list"

record FunctionDef =
  type_index :: nat
  nonParameterLocalTypes :: "ValueType list"
  code :: "nat list"

record IRModule =
  types :: "FunctionType list"
  functionImports :: "nat list"
  functionDefs :: "FunctionDef list"
  tablesSize :: nat
  memoriesSize :: nat
  globalsSize :: nat
  exceptionTypesSize :: nat

datatype emitError = indexOutOfRange | nullFunction

definition functions_size :: "IRModule \<Rightarrow> nat" where
  "functions_size irModule = length (functionImports irModule) + length (functionDefs irModule)"

definition functions_getType :: "IRModule \<Rightarrow> nat \<Rightarrow> emitError + nat" where
  "functions_getType irModule functionIndex =
     (if functionIndex < length (functionImports irModule)
      then Inr (functionImports irModule ! functionIndex)
      else if functionIndex < functions_size irModule
      then Inr (type_index (functionDefs irModule
                  ! (functionIndex - length (functionImports irModule))))
      else Inl indexOutOfRange)"

subsection \<open>The LLVM module\<close>

text \<open>
  The part of an \<open>llvm::Module\<close> that \<open>emitModule\<close> builds: its functions and its
  global variables, in the order of their creation. A \<open>llvm::Function*\<close> is the
  position of the function in the module. \<open>asLLVMType\<close> stands for the lowering of a
  signature to the WebAssembly calling convention and \<open>CallingConv_wasm\<close> for
  \<open>asLLVMCallingConv(CallingConvention::wasm)\<close>, both defined outside the sources.
  \<open>loweredFrom\<close> records the definition whose body \<open>EmitFunctionContext::emit\<close> has
  lowered into the function.
\<close>

datatype LLVMType =
    i8Type | i32Type | iptrType | i8PtrType
  | FunctionType_get LLVMType "LLVMType list"
  | ArrayType_get LLVMType nat
  | asLLVMType FunctionType

datatype LLVMConstant =
    GlobalVariable string
  | PtrToInt LLVMConstant LLVMType
  | ConstantArray LLVMType "LLVMConstant list"

datatype CallingConv = CallingConv_C | CallingConv_wasm

record LLVMGlobalVariable =
  globalName :: string
  valueType :: LLVMType
  isConstant :: bool
  hasInitializer :: bool

record LLVMFunction =
  functionName :: string
  functionType :: LLVMType
  callingConv :: CallingConv
  personalityFn :: "nat option"
  prefixData :: "LLVMConstant option"
  loweredFrom :: "FunctionDef option"

record LLVMModule =
  moduleFunctions :: "LLVMFunction list"
  moduleGlobals :: "LLVMGlobalVariable list"

text \<open>
  \<open>llvm::Function::Create\<close> with external linkage: a declaration appended to the
  module. All linkage here is external and is not a field.
\<close>

definition Function_Create :: "LLVMType \<Rightarrow> string \<Rightarrow> LLVMModule \<Rightarrow> nat \<times> LLVMModule" where
  "Function_Create ty name m =
     (length (moduleFunctions m),
      m\<lparr>moduleFunctions := moduleFunctions m @
          [\<lparr>functionName = name, functionType = ty, callingConv = CallingConv_C,
            personalityFn = None, prefixData = None, loweredFrom = None\<rparr>]\<rparr>)"

text \<open>A setter called through a \<open>llvm::Function*\<close>.\<close>

definition updateFunction ::
  "nat \<Rightarrow> (LLVMFunction \<Rightarrow> LLVMFunction) \<Rightarrow> LLVMModule \<Rightarrow> LLVMModule" where
  "updateFunction fn change m =
     m\<lparr>moduleFunctions := (moduleFunctions m)[fn := change (moduleFunctions m ! fn)]\<rparr>"

text \<open>\<open>createImportedConstant\<close>: an external 8-bit global, not constant, without initializer.\<close>

definition createImportedConstant :: "LLVMModule \<Rightarrow> string \<Rightarrow> LLVMConstant \<times> LLVMModule" where
  "createImportedConstant llvmModule externalName =
     (GlobalVariable externalName,
      llvmModule\<lparr>moduleGlobals := moduleGlobals llvmModule @
          [\<lparr>globalName = externalName, valueType = i8Type, isConstant = False,
            hasInitializer = False\<rparr>]\<rparr>)"

text \<open>
  Modelled from the spec: \<open>getExternalName\<close> (LLVMJITPrivate.h is not part of the
  sources), the base name followed by the index in decimal, as in \<open>typeId0\<close> and
  \<open>functionDefInstance2\<close>. \<open>to_string\<close> is \<open>std::to_string\<close> on an unsigned index.
\<close>

function to_string :: "nat \<Rightarrow> string" where
  "to_string n =
     (if n < 10 then [char_of (48 + n)]
      else to_string (n div 10) @ [char_of (48 + n mod 10)])"
  by pat_completeness auto
termination
  by (relation "measure (\<lambda>n. n)") auto

declare to_string.simps [simp del]

definition getExternalName :: "string \<Rightarrow> nat \<Rightarrow> string" where
  "getExternalName baseName index = baseName @ to_string index"

subsection \<open>The emission context\<close>

text \<open>
  \<open>EmitModuleContext\<close>, without its debug-info builder and metadata handles, which no
  statement below is about. \<open>llvmModule\<close> is the module the context points to, that
  is \<open>outLLVMModule\<close>. \<open>functionHandles\<close> is the member \<open>functions\<close>: a vector of
  \<open>llvm::Function*\<close>, \<open>None\<close> for a null pointer.
\<close>

record EmitModuleContext =
  llvmModule :: LLVMModule
  typeIds :: "LLVMConstant list"
  tableOffsets :: "LLVMConstant list"
  memoryOffsets :: "LLVMConstant list"
  globals :: "LLVMConstant list"
  exceptionTypeInstances :: "LLVMConstant list"
  defaultTableOffset :: "LLVMConstant option"
  defaultMemoryOffset :: "LLVMConstant option"
  moduleInstancePointer :: "LLVMConstant option"
  tableReferenceBias :: "LLVMConstant option"
  functionHandles :: "nat option list"
  tryPrologueDummyFunction :: "nat option"
  cxaBeginCatchFunction :: "nat option"

text \<open>
  The constructor \<open>EmitModuleContext::EmitModuleContext\<close> (lines 38 to 93).
  \<open>USE_WINDOWS_SEH\<close> is a macro defined outside the sources and is a parameter here.
\<close>

definition newEmitModuleContext :: "bool \<Rightarrow> LLVMModule \<Rightarrow> EmitModuleContext" where
  "newEmitModuleContext USE_WINDOWS_SEH inLLVMModule =
     (let moduleContext =
        \<lparr>llvmModule = inLLVMModule, typeIds = [], tableOffsets = [], memoryOffsets = [],
         globals = [], exceptionTypeInstances = [], defaultTableOffset = None,
         defaultMemoryOffset = None, moduleInstancePointer = None, tableReferenceBias = None,
         functionHandles = [], tryPrologueDummyFunction = None, cxaBeginCatchFunction = None\<rparr>
      in if \<not> USE_WINDOWS_SEH
         then let (fn, m) =
                    Function_Create (FunctionType_get i8PtrType [i8PtrType])
                      ''__cxa_begin_catch'' inLLVMModule
              in moduleContext\<lparr>llvmModule := m, cxaBeginCatchFunction := Some fn\<rparr>
         else moduleContext)"

subsection \<open>emitModule\<close>

text \<open>
  A loop \<open>for(Uptr index = 0; index < n; ++index)\<close> whose body can fail: the bodies
  run in the order of the indices, up to the first failure.
\<close>

definition forLoop :: "nat \<Rightarrow> (nat \<Rightarrow> 's \<Rightarrow> emitError + 's) \<Rightarrow> 's \<Rightarrow> emitError + 's" where
  "forLoop n body s =
     fold (\<lambda>index r. case r of Inl e \<Rightarrow> Inl e | Inr s' \<Rightarrow> body index s') [0..<n] (Inr s)"

text \<open>
  The body of the loop that creates the LLVM functions (lines 179 to 192).
  \<open>functions.resize\<close> has made
  the vector of handles as long as the functions are many; the body stores the new
  function at its index.
\<close>

definition createFunctionShell ::
  "IRModule \<Rightarrow> nat \<Rightarrow> EmitModuleContext \<Rightarrow> emitError + EmitModuleContext" where
  "createFunctionShell irModule functionIndex moduleContext =
     (case functions_getType irModule functionIndex of
        Inl e \<Rightarrow> Inl e
      | Inr index \<Rightarrow>
          if index < length (types irModule)
          then
            let functionType = types irModule ! index;
                (fn, m) =
                  Function_Create (asLLVMType functionType)
                    (if functionIndex \<ge> length (functionImports irModule)
                     then getExternalName ''functionDef''
                            (functionIndex - length (functionImports irModule))
                     else getExternalName ''functionImport'' functionIndex)
                    (llvmModule moduleContext);
                m' = updateFunction fn (\<lambda>f. f\<lparr>callingConv := CallingConv_wasm\<rparr>) m
            in Inr (moduleContext\<lparr>llvmModule := m',
                      functionHandles := (functionHandles moduleContext)[functionIndex := Some fn]\<rparr>)
          else Inl indexOutOfRange)"

text \<open>
  The body of the loop that compiles the definitions (lines 195 to 214): the
  personality function, the
  external global \<open>functionDefInstance<j>\<close>, the prefix data, and the lowering of the
  body by \<open>EmitFunctionContext::emit\<close>, which is outside the sources.
\<close>

definition compileFunctionDef ::
  "IRModule \<Rightarrow> nat \<Rightarrow> nat \<Rightarrow> EmitModuleContext \<Rightarrow> emitError + EmitModuleContext" where
  "compileFunctionDef irModule personalityFunction functionDefIndex moduleContext =
     (let functionDef = functionDefs irModule ! functionDefIndex
      in case functionHandles moduleContext
                ! (length (functionImports irModule) + functionDefIndex) of
           None \<Rightarrow> Inl nullFunction
         | Some fn \<Rightarrow>
             let m1 = updateFunction fn
                        (\<lambda>f. f\<lparr>personalityFn := Some personalityFunction\<rparr>)
                        (llvmModule moduleContext);
                 (constant, m2) =
                   createImportedConstant m1
                     (getExternalName ''functionDefInstance'' functionDefIndex);
                 functionInstance = PtrToInt constant iptrType
             in if type_index functionDef < length (typeIds moduleContext)
                then
                  let m3 = updateFunction fn
                             (\<lambda>f. f\<lparr>prefixData := Some (ConstantArray (ArrayType_get iptrType 2)
                                 [functionInstance,
                                  typeIds moduleContext ! type_index functionDef])\<rparr>) m2;
                      m4 = updateFunction fn (\<lambda>f. f\<lparr>loweredFrom := Some functionDef\<rparr>) m3
                  in Inr (moduleContext\<lparr>llvmModule := m4\<rparr>)
                else Inl indexOutOfRange)"

text \<open>The bodies of the five loops that create the external globals of the module.\<close>

definition importTypeId :: "nat \<Rightarrow> EmitModuleContext \<Rightarrow> EmitModuleContext" where
  "importTypeId typeIndex moduleContext =
     (let (constant, m) =
            createImportedConstant (llvmModule moduleContext) (getExternalName ''typeId'' typeIndex)
      in moduleContext\<lparr>llvmModule := m,
           typeIds := typeIds moduleContext @ [PtrToInt constant iptrType]\<rparr>)"

definition importTableOffset :: "nat \<Rightarrow> EmitModuleContext \<Rightarrow> EmitModuleContext" where
  "importTableOffset tableIndex moduleContext =
     (let (constant, m) =
            createImportedConstant (llvmModule moduleContext)
              (getExternalName ''tableOffset'' tableIndex)
      in moduleContext\<lparr>llvmModule := m,
           tableOffsets := tableOffsets moduleContext @ [PtrToInt constant iptrType]\<rparr>)"

definition importMemoryOffset :: "nat \<Rightarrow> EmitModuleContext \<Rightarrow> EmitModuleContext" where
  "importMemoryOffset memoryIndex moduleContext =
     (let (constant, m) =
            createImportedConstant (llvmModule moduleContext)
              (getExternalName ''memoryOffset'' memoryIndex)
      in moduleContext\<lparr>llvmModule := m,
           memoryOffsets := memoryOffsets moduleContext @ [PtrToInt constant iptrType]\<rparr>)"

definition importGlobal :: "nat \<Rightarrow> EmitModuleContext \<Rightarrow> EmitModuleContext" where
  "importGlobal globalIndex moduleContext =
     (let (constant, m) =
            createImportedConstant (llvmModule moduleContext) (getExternalName ''global'' globalIndex)
      in moduleContext\<lparr>llvmModule := m, globals := globals moduleContext @ [constant]\<rparr>)"

definition importExceptionType :: "nat \<Rightarrow> EmitModuleContext \<Rightarrow> EmitModuleContext" where
  "importExceptionType exceptionTypeIndex moduleContext =
     (let (constant, m) =
            createImportedConstant (llvmModule moduleContext)
              (getExternalName ''exceptionType'' exceptionTypeIndex)
      in moduleContext\<lparr>llvmModule := m,
           exceptionTypeInstances := exceptionTypeInstances moduleContext @ [constant]\<rparr>)"

text \<open>
  The first part of \<open>emitModule\<close> (lines 110 to 175), up to the creation of
  \<open>tableReferenceBias\<close>: the context, the personality function and the external
  globals. It yields the personality function and the context.
\<close>

definition emitModule_externals ::
  "bool \<Rightarrow> bool \<Rightarrow> IRModule \<Rightarrow> LLVMModule \<Rightarrow> nat \<times> EmitModuleContext" where
  "emitModule_externals WIN32 USE_WINDOWS_SEH irModule outLLVMModule =
     (let moduleContext0 = newEmitModuleContext USE_WINDOWS_SEH outLLVMModule;
          (personalityFunction, m) =
            Function_Create (FunctionType_get i32Type [])
              (if WIN32 then ''__C_specific_handler'' else ''__gxx_personality_v0'')
              (llvmModule moduleContext0);
          moduleContext1 = moduleContext0\<lparr>llvmModule := m\<rparr>;
          moduleContext2 = fold importTypeId [0..<length (types irModule)] moduleContext1;
          moduleContext3 = fold importTableOffset [0..<tablesSize irModule] moduleContext2;
          moduleContext4 =
            (if tableOffsets moduleContext3 \<noteq> []
             then moduleContext3\<lparr>defaultTableOffset := Some (tableOffsets moduleContext3 ! 0)\<rparr>
             else moduleContext3);
          moduleContext5 = fold importMemoryOffset [0..<memoriesSize irModule] moduleContext4;
          moduleContext6 =
            (if memoryOffsets moduleContext5 \<noteq> []
             then moduleContext5\<lparr>defaultMemoryOffset := Some (memoryOffsets moduleContext5 ! 0)\<rparr>
             else moduleContext5);
          moduleContext7 = fold importGlobal [0..<globalsSize irModule] moduleContext6;
          moduleContext8 =
            fold importExceptionType [0..<exceptionTypesSize irModule] moduleContext7;
          (moduleInstance, m9) = createImportedConstant (llvmModule moduleContext8) ''moduleInstance'';
          moduleContext9 =
            moduleContext8\<lparr>llvmModule := m9, moduleInstancePointer := Some moduleInstance\<rparr>;
          (bias, m10) = createImportedConstant (llvmModule moduleContext9) ''tableReferenceBias''
      in (personalityFunction,
          moduleContext9\<lparr>llvmModule := m10,
            tableReferenceBias := Some (PtrToInt bias iptrType)\<rparr>))"

text \<open>
  \<open>emitModule\<close> (lines 105 to 220). \<open>WIN32\<close> tells whether \<open>_WIN32\<close> is defined. The
  source returns nothing and fills \<open>outLLVMModule\<close>; the model returns the
  personality function and the context, whose \<open>llvmModule\<close> is the module filled.
\<close>

definition emitModule ::
  "bool \<Rightarrow> bool \<Rightarrow> IRModule \<Rightarrow> LLVMModule \<Rightarrow> emitError + (nat \<times> EmitModuleContext)" where
  "emitModule WIN32 USE_WINDOWS_SEH irModule outLLVMModule =
     (let (personalityFunction, moduleContext) =
            emitModule_externals WIN32 USE_WINDOWS_SEH irModule outLLVMModule;
          resized = moduleContext\<lparr>functionHandles := replicate (functions_size irModule) None\<rparr>
      in case forLoop (functions_size irModule) (createFunctionShell irModule) resized of
           Inl e \<Rightarrow> Inl e
         | Inr created \<Rightarrow>
             (case forLoop (length (functionDefs irModule))
                     (compileFunctionDef irModule personalityFunction) created of
                Inl e \<Rightarrow> Inl e
              | Inr compiled \<Rightarrow> Inr (personalityFunction, compiled)))"

subsection \<open>Notions used in the statements\<close>

text \<open>The two declarations that serve exception handling.\<close>

definition cxaBeginCatch :: LLVMFunction where
  "cxaBeginCatch =
     \<lparr>functionName = ''__cxa_begin_catch'',
      functionType = FunctionType_get i8PtrType [i8PtrType], callingConv = CallingConv_C,
      personalityFn = None, prefixData = None, loweredFrom = None\<rparr>"

definition personality :: "bool \<Rightarrow> LLVMFunction" where
  "personality WIN32 =
     \<lparr>functionName = (if WIN32 then ''__C_specific_handler'' else ''__gxx_personality_v0''),
      functionType = FunctionType_get i32Type [], callingConv = CallingConv_C,
      personalityFn = None, prefixData = None, loweredFrom = None\<rparr>"

text \<open>The name given to the function with a given index.\<close>

definition shellName :: "IRModule \<Rightarrow> nat \<Rightarrow> string" where
  "shellName irModule functionIndex =
     (if functionIndex \<ge> length (functionImports irModule)
      then getExternalName ''functionDef'' (functionIndex - length (functionImports irModule))
      else getExternalName ''functionImport'' functionIndex)"

text \<open>The prefix data of the \<open>j\<close>-th definition.\<close>

definition prefixOf :: "IRModule \<Rightarrow> EmitModuleContext \<Rightarrow> nat \<Rightarrow> LLVMConstant" where
  "prefixOf irModule moduleContext j =
     ConstantArray (ArrayType_get iptrType 2)
       [PtrToInt (GlobalVariable (getExternalName ''functionDefInstance'' j)) iptrType,
        typeIds moduleContext ! type_index (functionDefs irModule ! j)]"

text \<open>
  What holds after \<open>i\<close> iterations of the loop that creates the functions, started in
  the context \<open>c0\<close>.
\<close>

definition shellsCreated ::
  "IRModule \<Rightarrow> EmitModuleContext \<Rightarrow> nat \<Rightarrow> EmitModuleContext \<Rightarrow> bool" where
  "shellsCreated ir c0 i c \<longleftrightarrow>
     length (moduleFunctions (llvmModule c)) = length (moduleFunctions (llvmModule c0)) + i \<and>
     take (length (moduleFunctions (llvmModule c0))) (moduleFunctions (llvmModule c))
       = moduleFunctions (llvmModule c0) \<and>
     moduleGlobals (llvmModule c) = moduleGlobals (llvmModule c0) \<and>
     length (functionHandles c) = length (functionHandles c0) \<and>
     typeIds c = typeIds c0 \<and> cxaBeginCatchFunction c = cxaBeginCatchFunction c0 \<and>
     (\<forall>k < i. functionHandles c ! k = Some (length (moduleFunctions (llvmModule c0)) + k) \<and>
        functionName (moduleFunctions (llvmModule c) ! (length (moduleFunctions (llvmModule c0)) + k))
          = shellName ir k \<and>
        (\<exists>index. functions_getType ir k = Inr index \<and> index < length (types ir)))"

text \<open>
  What holds after \<open>j\<close> iterations of the loop that compiles the definitions, started
  in the context \<open>c0\<close>; \<open>firstDef\<close> is the function of the first definition and \<open>p\<close> the
  personality function.
\<close>

definition defsCompiled ::
  "IRModule \<Rightarrow> nat \<Rightarrow> nat \<Rightarrow> EmitModuleContext \<Rightarrow> nat \<Rightarrow> EmitModuleContext \<Rightarrow> bool" where
  "defsCompiled ir p firstDef c0 j c \<longleftrightarrow>
     length (moduleFunctions (llvmModule c)) = length (moduleFunctions (llvmModule c0)) \<and>
     map functionName (moduleFunctions (llvmModule c))
       = map functionName (moduleFunctions (llvmModule c0)) \<and>
     functionHandles c = functionHandles c0 \<and>
     typeIds c = typeIds c0 \<and> cxaBeginCatchFunction c = cxaBeginCatchFunction c0 \<and>
     set (moduleGlobals (llvmModule c0)) \<subseteq> set (moduleGlobals (llvmModule c)) \<and>
     (\<forall>h. h < firstDef \<or> firstDef + j \<le> h \<longrightarrow>
        moduleFunctions (llvmModule c) ! h = moduleFunctions (llvmModule c0) ! h) \<and>
     (\<forall>k < j. type_index (functionDefs ir ! k) < length (typeIds c0) \<and>
        \<lparr>globalName = getExternalName ''functionDefInstance'' k, valueType = i8Type,
          isConstant = False, hasInitializer = False\<rparr> \<in> set (moduleGlobals (llvmModule c)) \<and>
        personalityFn (moduleFunctions (llvmModule c) ! (firstDef + k)) = Some p \<and>
        prefixData (moduleFunctions (llvmModule c) ! (firstDef + k)) = Some (prefixOf ir c0 k))"

subsection \<open>An example module\<close>

text \<open>Two types, one table, no memory, one imported function and three definitions.\<close>

definition exampleIR :: IRModule where
  "exampleIR =
     \<lparr>types = [\<lparr>results = [], params = [i32]\<rparr>, \<lparr>results = [i32], params = []\<rparr>],
      functionImports = [0],
      functionDefs =
        [\<lparr>type_index = 1, nonParameterLocalTypes = [], code = []\<rparr>,
         \<lparr>type_index = 0, nonParameterLocalTypes = [], code = []\<rparr>,
         \<lparr>type_index = 1, nonParameterLocalTypes = [i32], code = [1]\<rparr>],
      tablesSize = 1, memoriesSize = 0, globalsSize = 0, exceptionTypesSize = 0\<rparr>"

definition emptyLLVMModule :: LLVMModule where
  "emptyLLVMModule = \<lparr>moduleFunctions = [], moduleGlobals = []\<rparr>"

text \<open>What \<open>emitModule\<close> returns for it, without and with Windows SEH.\<close>

definition exampleEmitted :: "nat \<times> EmitModuleContext" where
  "exampleEmitted = projr (emitModule False False exampleIR emptyLLVMModule)"

definition exampleEmittedSEH :: "nat \<times> EmitModuleContext" where
  "exampleEmittedSEH = projr (emitModule True True exampleIR emptyLLVMModule)"

section \<open>Properties of atomic wait/wake\<close>

subsection \<open>The heap of wait lists\<close>

lemma lookup_storeWaitList:
  "lookupWaitList (storeWaitList p object s) q =
     (if q = p \<and> p < length (waitLists s) then Some object else lookupWaitList s q)"
  by (simp add: lookupWaitList_def storeWaitList_def)

lemma lookup_deleteWaitList:
  "lookupWaitList (deleteWaitList p s) q = (if q = p then None else lookupWaitList s q)"
  by (simp add: lookupWaitList_def deleteWaitList_def)

lemma lookup_live: "lookupWaitList s p = Some object \<Longrightarrow> p < length (waitLists s)"
  by (simp add: lookupWaitList_def split: if_splits)

lemma lookup_nth: "lookupWaitList s p = Some object \<Longrightarrow> waitLists s ! p = Some object"
  by (simp add: lookupWaitList_def split: if_splits)

lemma storeWaitList_same:
  "lookupWaitList s p = Some object \<Longrightarrow> storeWaitList p object s = s"
  by (simp add: storeWaitList_def lookupWaitList_def list_update_same_conv split: if_splits)

lemma storeWaitList_twice [simp]:
  "storeWaitList p x (storeWaitList p y s) = storeWaitList p x s"
  by (simp add: storeWaitList_def)

lemma deleteWaitList_store [simp]:
  "deleteWaitList p (storeWaitList p y s) = deleteWaitList p s"
  by (simp add: storeWaitList_def deleteWaitList_def)

lemma storeWaitList_fields [simp]:
  "addressToWaitListMap (storeWaitList p x s) = addressToWaitListMap s"
  "signaledEvents (storeWaitList p x s) = signaledEvents s"
  "length (waitLists (storeWaitList p x s)) = length (waitLists s)"
  by (simp_all add: storeWaitList_def)

lemma deleteWaitList_fields [simp]:
  "addressToWaitListMap (deleteWaitList p s) = addressToWaitListMap s"
  "signaledEvents (deleteWaitList p s) = signaledEvents s"
  "length (waitLists (deleteWaitList p s)) = length (waitLists s)"
  by (simp_all add: deleteWaitList_def)

subsection \<open>What a call can end in\<close>

lemma openWaitList_error: "openWaitList a s = Inl e \<Longrightarrow> e = danglingWaitList"
  by (auto simp: openWaitList_def Let_def split: option.splits)

lemma closeWaitList_error:
  "closeWaitList a p s = Inl e \<Longrightarrow> e = danglingWaitList \<or> e = assertionFailure"
  by (auto simp: closeWaitList_def closeWaitList_decrement_def closeWaitList_recheck_def Let_def
      split: option.splits if_splits sum.splits prod.splits)

lemma getEndTimeFromTimeout_error:
  "getEndTimeFromTimeout t x = Inl e \<Longrightarrow> e = conversionOutOfRange \<or> e = fatalError"
  by (auto simp: getEndTimeFromTimeout_def Let_def split: if_splits option.splits)

lemma waitForEvent_error: "waitForEvent ev t s = Inl e \<Longrightarrow> e = blocksForever"
  by (auto simp: waitForEvent_def split: if_splits)

lemma pushWakeEvent_error: "pushWakeEvent p ev s = Inl e \<Longrightarrow> e = danglingWaitList"
  by (auto simp: pushWakeEvent_def split: option.splits)

lemma wakeAddress_locked_error: "wakeAddress_locked p n s = Inl e \<Longrightarrow> e = danglingWaitList"
  by (auto simp: wakeAddress_locked_def Let_def split: option.splits)

lemma waitOnAddress_timedOut_error:
  "waitOnAddress_timedOut now p ev s = Inl e \<Longrightarrow>
     e = danglingWaitList \<or> e = blocksForever \<or> e = fatalError"
  by (auto simp: waitOnAddress_timedOut_def
      split: if_splits option.splits sum.splits prod.splits dest: waitForEvent_error)

lemma wakeAddress_error:
  "fst (wakeAddress a n s) = Inl e \<Longrightarrow>
     e = danglingWaitList \<or> e = assertionFailure \<or> e = integerDivideByZeroOrIntegerOverflow"
  by (auto simp: wakeAddress_def Let_def split: if_splits sum.splits prod.splits
      dest: closeWaitList_error openWaitList_error wakeAddress_locked_error)

lemma waitOnAddress_error:
  "fst (waitOnAddress env tls p v t s) = Inl e \<Longrightarrow>
     e \<noteq> accessViolation \<and> e \<noteq> misalignedAtomicMemoryAccess"
  by (auto simp: waitOnAddress_def Let_def split: if_splits sum.splits prod.splits
      dest!: closeWaitList_error getEndTimeFromTimeout_error waitForEvent_error
        waitOnAddress_timedOut_error openWaitList_error pushWakeEvent_error)

lemma wakeAddress_no_validation_trap:
  "fst (wakeAddress a n s) \<noteq> Inl accessViolation"
  "fst (wakeAddress a n s) \<noteq> Inl misalignedAtomicMemoryAccess"
  using wakeAddress_error [of a n s] by auto

lemma waitOnAddress_no_validation_trap:
  "fst (waitOnAddress env tls p v t s) \<noteq> Inl accessViolation"
  "fst (waitOnAddress env tls p v t s) \<noteq> Inl misalignedAtomicMemoryAccess"
  using waitOnAddress_error [of env tls p v t s] by auto

subsection \<open>Validation of the offset\<close>

lemma and_3_eq_0_iff: "(w AND 3 = 0) = (4 dvd unat w)" for w :: "32 word"
  using and_mask_dvd_nat [of 2 w] by (simp add: mask_eq_exp_minus_1)

lemma and_7_eq_0_iff: "(w AND 7 = 0) = (8 dvd unat w)" for w :: "32 word"
  using and_mask_dvd_nat [of 3 w] by (simp add: mask_eq_exp_minus_1)

lemma atomic_wake_validation:
  "fst (atomic_wake m off n s) = Inl accessViolation \<longleftrightarrow> endOffset m < unat off"
  "fst (atomic_wake m off n s) = Inl misalignedAtomicMemoryAccess
     \<longleftrightarrow> unat off \<le> endOffset m \<and> \<not> 4 dvd unat off"
  by (simp_all add: atomic_wake_def and_3_eq_0_iff wakeAddress_no_validation_trap)

lemma atomic_wait_i32_validation:
  "fst (atomic_wait_i32 env tls m off v t s) = Inl accessViolation \<longleftrightarrow> endOffset m < unat off"
  "fst (atomic_wait_i32 env tls m off v t s) = Inl misalignedAtomicMemoryAccess
     \<longleftrightarrow> unat off \<le> endOffset m \<and> \<not> 4 dvd unat off"
  by (simp_all add: atomic_wait_i32_def and_3_eq_0_iff waitOnAddress_no_validation_trap)

lemma atomic_wait_i64_validation:
  "fst (atomic_wait_i64 env tls m off v t s) = Inl accessViolation \<longleftrightarrow> endOffset m < unat off"
  "fst (atomic_wait_i64 env tls m off v t s) = Inl misalignedAtomicMemoryAccess
     \<longleftrightarrow> unat off \<le> endOffset m \<and> \<not> 8 dvd unat off"
  by (simp_all add: atomic_wait_i64_def and_7_eq_0_iff waitOnAddress_no_validation_trap)

text \<open>
  C4. Each of \<open>atomic_wake\<close>, \<open>atomic_wait_i32\<close> and \<open>atomic_wait_i64\<close> traps with
  \<open>accessViolation\<close> exactly when the offset, read as a \<open>U32\<close>, is greater than
  \<open>memory.endOffset\<close> (an offset equal to it passes), and traps with
  \<open>misalignedAtomicMemoryAccess\<close> exactly when the offset passes that check and is not
  a multiple of the access width: 4 for \<open>atomic_wake\<close> and \<open>atomic_wait_i32\<close>, 8 for
  \<open>atomic_wait_i64\<close>. An offset that fails both checks gets \<open>accessViolation\<close>: the
  bounds check comes first.
\<close>

theorem atomic_prevalidation:
  "(fst (atomic_wake memoryInstance addressOffset numToWake s) = Inl accessViolation
      \<longleftrightarrow> endOffset memoryInstance < unat addressOffset) \<and>
   (fst (atomic_wake memoryInstance addressOffset numToWake s) = Inl misalignedAtomicMemoryAccess
      \<longleftrightarrow> unat addressOffset \<le> endOffset memoryInstance \<and> \<not> 4 dvd unat addressOffset) \<and>
   (fst (atomic_wait_i32 env32 tls memoryInstance addressOffset expected32 timeout s)
      = Inl accessViolation
      \<longleftrightarrow> endOffset memoryInstance < unat addressOffset) \<and>
   (fst (atomic_wait_i32 env32 tls memoryInstance addressOffset expected32 timeout s)
      = Inl misalignedAtomicMemoryAccess
      \<longleftrightarrow> unat addressOffset \<le> endOffset memoryInstance \<and> \<not> 4 dvd unat addressOffset) \<and>
   (fst (atomic_wait_i64 env64 tls memoryInstance addressOffset expected64 timeout s)
      = Inl accessViolation
      \<longleftrightarrow> endOffset memoryInstance < unat addressOffset) \<and>
   (fst (atomic_wait_i64 env64 tls memoryInstance addressOffset expected64 timeout s)
      = Inl misalignedAtomicMemoryAccess
      \<longleftrightarrow> unat addressOffset \<le> endOffset memoryInstance \<and> \<not> 8 dvd unat addressOffset)"
  by (simp only: atomic_wake_validation atomic_wait_i32_validation atomic_wait_i64_validation
      simp_thms)

text \<open>
  At an end offset of 65536: the offset 65537 is out of bounds for all three, although
  it is misaligned too.
\<close>

theorem atomic_prevalidation_witness:
  "fst (atomic_wake exampleMemory 65537 1 idleRuntime) = Inl accessViolation \<and>
   fst (atomic_wait_i32 (quietEnvironment 0) None exampleMemory 65537 0 NaN idleRuntime)
     = Inl accessViolation \<and>
   fst (atomic_wait_i64 (quietEnvironment 0) None exampleMemory 65537 0 NaN idleRuntime)
     = Inl accessViolation"
  using atomic_prevalidation [where memoryInstance = exampleMemory and addressOffset = 65537
      and numToWake = 1 and s = idleRuntime and ?env32.0 = "quietEnvironment 0" and tls = None
      and ?expected32.0 = 0 and timeout = NaN and ?env64.0 = "quietEnvironment 0"
      and ?expected64.0 = 0]
  by (simp add: exampleMemory_def)

text \<open>The offset 65536 = \<open>endOffset\<close> passes the bounds check; the offset 65532 is
  4-aligned but not 8-aligned.\<close>

lemma atomic_prevalidation_examples:
  "fst (atomic_wake exampleMemory 65536 1 idleRuntime) \<noteq> Inl accessViolation"
  "fst (atomic_wake exampleMemory 65534 1 idleRuntime) = Inl misalignedAtomicMemoryAccess"
  "fst (atomic_wait_i64 (quietEnvironment 0) None exampleMemory 65532 0 NaN idleRuntime)
     = Inl misalignedAtomicMemoryAccess"
  by (simp_all add: atomic_wake_validation atomic_wait_i64_validation exampleMemory_def)

subsection \<open>Offsets with the sign bit set\<close>

lemma negative_I32_as_U32:
  fixes w :: I32
  assumes "sint w < 0"
  shows "2147483648 \<le> unat w"
proof (rule ccontr)
  assume "\<not> 2147483648 \<le> unat w"
  then have "unat w < 2147483648" by simp
  then have "int (unat w) < 2147483648" by linarith
  then have small: "uint w < 2147483648" by (simp only: uint_nat)
  have "0 \<le> uint w" by simp
  then have low: "- 2147483648 \<le> uint w" by linarith
  have "signed_take_bit 31 (uint w) = uint w"
    using low small signed_take_bit_int_eq_self [of 31 "uint w"] by simp
  then have "sint w = uint w"
    by (simp add: sint_uint)
  with assms show False by simp
qed

text \<open>
  C10. The bounds checks compare \<open>U32(addressOffset)\<close> with \<open>memory.endOffset\<close>: an
  offset whose signed value is negative is compared as a value of at least \<open>2^31\<close>, and
  whenever \<open>memory.endOffset < 2^31\<close> all three intrinsics trap with \<open>accessViolation\<close>.
\<close>

theorem negative_offset_accessViolation:
  assumes "sint addressOffset < 0" and "endOffset memoryInstance < 2 ^ 31"
  shows "2 ^ 31 \<le> unat addressOffset \<and>
    fst (atomic_wake memoryInstance addressOffset numToWake s) = Inl accessViolation \<and>
    fst (atomic_wait_i32 env32 tls memoryInstance addressOffset expected32 timeout s)
      = Inl accessViolation \<and>
    fst (atomic_wait_i64 env64 tls memoryInstance addressOffset expected64 timeout s)
      = Inl accessViolation"
proof -
  have big: "2147483648 \<le> unat addressOffset"
    using assms(1) by (rule negative_I32_as_U32)
  moreover have "endOffset memoryInstance < 2147483648"
    using assms(2) by simp
  ultimately have "endOffset memoryInstance < unat addressOffset"
    by linarith
  then show ?thesis
    using big
    by (simp add: atomic_wake_validation atomic_wait_i32_validation atomic_wait_i64_validation)
qed

text \<open>The offset \<open>-4\<close> (aligned, \<open>0xFFFFFFFC\<close> as a \<open>U32\<close>) against an end offset of 65536.\<close>

theorem negative_offset_accessViolation_witness:
  "sint (- 4 :: I32) < 0 \<and> endOffset exampleMemory < 2 ^ 31 \<and>
   2 ^ 31 \<le> unat (- 4 :: I32) \<and>
   fst (atomic_wake exampleMemory (- 4) 1 idleRuntime) = Inl accessViolation \<and>
   fst (atomic_wait_i32 (quietEnvironment 0) None exampleMemory (- 4) 0 NaN idleRuntime)
     = Inl accessViolation \<and>
   fst (atomic_wait_i64 (quietEnvironment 0) None exampleMemory (- 4) 0 NaN idleRuntime)
     = Inl accessViolation"
proof -
  have neg: "sint (- 4 :: I32) < 0" by simp
  have small: "endOffset exampleMemory < 2 ^ 31" by (simp add: exampleMemory_def)
  show ?thesis
    using neg small
      negative_offset_accessViolation [OF neg small, where numToWake = 1 and s = idleRuntime
        and ?env32.0 = "quietEnvironment 0" and tls = None and ?expected32.0 = 0
        and timeout = NaN and ?env64.0 = "quietEnvironment 0" and ?expected64.0 = 0]
    by simp
qed

text \<open>
  An offset that passes both checks: the intrinsic is the call of \<open>wakeAddress\<close> or
  \<open>waitOnAddress\<close> on the cell at the base address plus the offset.
\<close>

lemma atomic_wake_validated:
  assumes "unat addressOffset \<le> endOffset memoryInstance" and "4 dvd unat addressOffset"
  shows "atomic_wake memoryInstance addressOffset numToWake s
    = wakeAddress (baseAddress memoryInstance + unat addressOffset) numToWake s"
  using assms by (simp add: atomic_wake_def memoryRef_def and_3_eq_0_iff)

lemma atomic_wait_i32_validated:
  assumes "unat addressOffset \<le> endOffset memoryInstance" and "4 dvd unat addressOffset"
  shows "atomic_wait_i32 env tls memoryInstance addressOffset expectedValue timeout s
    = waitOnAddress env tls (baseAddress memoryInstance + unat addressOffset) expectedValue
        timeout s"
  using assms by (simp add: atomic_wait_i32_def memoryRef_def and_3_eq_0_iff)

lemma atomic_wait_i64_validated:
  assumes "unat addressOffset \<le> endOffset memoryInstance" and "8 dvd unat addressOffset"
  shows "atomic_wait_i64 env tls memoryInstance addressOffset expectedValue timeout s
    = waitOnAddress env tls (baseAddress memoryInstance + unat addressOffset) expectedValue
        timeout s"
  using assms by (simp add: atomic_wait_i64_def memoryRef_def and_7_eq_0_iff)

subsection \<open>Opening and closing a wait list\<close>

lemma openWaitList_absent:
  assumes "addressToWaitListMap s a = None"
  shows "openWaitList a s =
     Inr (length (waitLists s),
          s\<lparr>waitLists := waitLists s @ [Some newWaitList],
            addressToWaitListMap := (addressToWaitListMap s)(a \<mapsto> length (waitLists s))\<rparr>)"
  using assms by (simp add: openWaitList_def Let_def)

lemma openWaitList_present:
  assumes "addressToWaitListMap s a = Some p" and "lookupWaitList s p = Some object"
  shows "openWaitList a s =
     Inr (p, storeWaitList p (object\<lparr>numReferences := numReferences object + 1\<rparr>) s)"
  using assms by (simp add: openWaitList_def)


lemma closeWaitList_decrement_live:
  assumes "lookupWaitList s p = Some object"
  shows "closeWaitList_decrement p s =
     Inr (numReferences object = 1,
          storeWaitList p (object\<lparr>numReferences := numReferences object - 1\<rparr>) s)"
  using assms by (simp add: closeWaitList_decrement_def Let_def)

lemma closeWaitList_recheck_live:
  assumes "lookupWaitList s p = Some object"
  shows "closeWaitList_recheck a p s =
     (if numReferences object = 0
      then (if wakeEvents object \<noteq> [] then Inl assertionFailure
            else Inr ((deleteWaitList p s)
                   \<lparr>addressToWaitListMap := (addressToWaitListMap s)(a := None)\<rparr>))
      else Inr s)"
  using assms by (simp add: closeWaitList_recheck_def)

lemma closeWaitList_live:
  assumes "lookupWaitList s p = Some object"
  shows "closeWaitList a p s =
     (if numReferences object = 1
      then (if wakeEvents object \<noteq> [] then Inl assertionFailure
            else Inr ((deleteWaitList p s)
                   \<lparr>addressToWaitListMap := (addressToWaitListMap s)(a := None)\<rparr>))
      else Inr (storeWaitList p (object\<lparr>numReferences := numReferences object - 1\<rparr>) s))"
proof -
  have live: "p < length (waitLists s)"
    using assms by (rule lookup_live)
  show ?thesis
    using live
    by (simp add: closeWaitList_def closeWaitList_decrement_live [OF assms]
        closeWaitList_recheck_def lookup_storeWaitList)
qed

lemma closeWaitList_dangling:
  assumes "lookupWaitList s p = None"
  shows "closeWaitList a p s = Inl danglingWaitList"
  using assms by (simp add: closeWaitList_def closeWaitList_decrement_def)

text \<open>
  \<open>closeWaitList\<close> returns unless the list has been deleted, or the call is to take
  the last reference from a list that still has events.
\<close>

lemma closeWaitList_returns:
  "(\<exists>s'. closeWaitList a p s = Inr s') \<longleftrightarrow>
     (\<exists>object. lookupWaitList s p = Some object \<and>
        (numReferences object = 1 \<longrightarrow> wakeEvents object = []))"
proof (cases "lookupWaitList s p")
  case None
  then show ?thesis
    by (simp add: closeWaitList_dangling)
next
  case (Some object)
  then show ?thesis
    by (simp add: closeWaitList_live)
qed

subsection \<open>wakeAddress\<close>





lemma numWoken_Nil [simp]: "numWoken c [] = 0"
  by (simp add: numWoken_def)























subsection \<open>waitOnAddress\<close>






lemma getEndTimeFromTimeout_infinite:
  "getEndTimeFromTimeout t (Infinity False) = Inr UINT64_MAX"
  by (simp add: getEndTimeFromTimeout_def)

lemma getEndTimeFromTimeout_zero:
  "getEndTimeFromTimeout t (Finite 0) = Inr t"
  by (simp add: getEndTimeFromTimeout_def f64_round_def)



lemma openWaitList_live:
  assumes "openWaitList a s = Inr (p, s1)"
  shows "\<exists>object. lookupWaitList s1 p = Some object"
  using assms
  by (auto simp: openWaitList_def Let_def lookupWaitList_def storeWaitList_def
      split: option.splits if_splits)

lemma registered_opened:
  assumes "openWaitList a s = Inr (p, s1)"
  shows "pushWakeEvent p (threadEvent env tls) s1 = Inr (registered env tls a s)"
proof -
  obtain object where "lookupWaitList s1 p = Some object"
    using openWaitList_live [OF assms] by blast
  then show ?thesis
    using assms by (simp add: registered_def pushWakeEvent_def)
qed

text \<open>
  C2. Once the end time is computed and the wait list opened, what \<open>waitOnAddress\<close>
  ends in is fixed by four observations: whether the value loaded from the cell
  differs from the expected one; whether the event of the thread is signaled when
  its blocking wait ends; whether the end time is the infinite one; and, after a
  wait that timed out, whether the event is still on the wait list when the thread
  has locked the list again, and whether it is signaled then.

  The call returns 1 exactly when the value differs, and then it has only opened
  and closed the wait list. It returns 2 exactly when the value is as expected, the
  wait ended with the deadline passed and the event not signaled, and the event is
  still on the list; the event is then taken off the list. It returns 0 exactly when
  the value is as expected and the event was signaled: either when the wait ended,
  or, the deadline passed, when the list is locked again and the event is no longer
  on it; the signal is then consumed. In each of the three cases the state after the
  call is what \<open>closeWaitList\<close> makes of that state, and the call returns if
  \<open>closeWaitList\<close> does (which it does unless the list has been deleted or is left
  without a reference while it has events). No other code is returned. The call never returns exactly
  when the value is as expected, the event is not signaled and the wait has no
  deadline: the end time is the infinite one (or, for the wait of line 165 on an
  event that is off the list and not signaled, the clock reads \<open>UINT64_MAX\<close>); with
  any other clock that wait of line 165 fails its \<open>errorUnless\<close>.
\<close>

theorem waitOnAddress_return_codes:
  "let wakeEvent = threadEvent env threadWakeEvent;
       wokenUp = otherThreadsWhileBlocked env (registered env threadWakeEvent valuePointer s);
       relocked = otherThreadsBeforeRelock env wokenUp;
       differs = (memoryContents env valuePointer \<noteq> expectedValue);
       result = waitOnAddress env threadWakeEvent valuePointer expectedValue timeout s
   in case getEndTimeFromTimeout (monotonicClock env) timeout of
        Inl e \<Rightarrow> result = (Inl e, threadWakeEvent, s)
      | Inr endTime \<Rightarrow>
          (case openWaitList valuePointer s of
             Inl e \<Rightarrow> result = (Inl e, threadWakeEvent, s)
           | Inr (waitList, opened) \<Rightarrow>
               (\<forall>closed. result = (Inr 1, threadWakeEvent, closed) \<longleftrightarrow>
                  differs \<and> closeWaitList valuePointer waitList opened = Inr closed) \<and>
               (\<forall>closed. result = (Inr 2, Some wakeEvent, closed) \<longleftrightarrow>
                  \<not> differs \<and> \<not> signaledEvents wokenUp wakeEvent \<and> endTime \<noteq> UINT64_MAX \<and>
                  wakeEvent \<in> set (wakeEventsOf relocked waitList) \<and>
                  closeWaitList valuePointer waitList (removeWakeEvent waitList wakeEvent relocked)
                    = Inr closed) \<and>
               (\<forall>closed. result = (Inr 0, Some wakeEvent, closed) \<longleftrightarrow>
                  \<not> differs \<and>
                  (signaledEvents wokenUp wakeEvent \<and>
                     closeWaitList valuePointer waitList (consumeSignal wakeEvent wokenUp)
                       = Inr closed
                   \<or> \<not> signaledEvents wokenUp wakeEvent \<and> endTime \<noteq> UINT64_MAX \<and>
                     lookupWaitList relocked waitList \<noteq> None \<and>
                     wakeEvent \<notin> set (wakeEventsOf relocked waitList) \<and>
                     signaledEvents relocked wakeEvent \<and>
                     closeWaitList valuePointer waitList (consumeSignal wakeEvent relocked)
                       = Inr closed)) \<and>
               (\<forall>returned. fst result = Inr returned \<longrightarrow>
                  returned = 0 \<or> returned = 1 \<or> returned = 2) \<and>
               fst (snd result) = (if differs then threadWakeEvent else Some wakeEvent) \<and>
               (fst result = Inl blocksForever \<longleftrightarrow>
                  \<not> differs \<and> \<not> signaledEvents wokenUp wakeEvent \<and>
                  (endTime = UINT64_MAX
                   \<or> lookupWaitList relocked waitList \<noteq> None \<and>
                     wakeEvent \<notin> set (wakeEventsOf relocked waitList) \<and>
                     \<not> signaledEvents relocked wakeEvent \<and>
                     monotonicClockAfterTimeout env = UINT64_MAX)) \<and>
               (fst result = Inl fatalError \<longleftrightarrow>
                  \<not> differs \<and> \<not> signaledEvents wokenUp wakeEvent \<and> endTime \<noteq> UINT64_MAX \<and>
                  lookupWaitList relocked waitList \<noteq> None \<and>
                  wakeEvent \<notin> set (wakeEventsOf relocked waitList) \<and>
                  \<not> signaledEvents relocked wakeEvent \<and>
                  monotonicClockAfterTimeout env \<noteq> UINT64_MAX))"
proof (cases "getEndTimeFromTimeout (monotonicClock env) timeout")
  case (Inl e)
  then show ?thesis
    by (simp add: waitOnAddress_def Let_def)
next
  case endTime: (Inr endTime)
  show ?thesis
  proof (cases "openWaitList valuePointer s")
    case (Inl e)
    then show ?thesis
      using endTime by (simp add: waitOnAddress_def Let_def)
  next
    case (Inr pair)
    obtain waitList opened where pair: "pair = (waitList, opened)"
      by (cases pair)
    have opened: "openWaitList valuePointer s = Inr (waitList, opened)"
      using Inr pair by simp
    note pushed = registered_opened [OF opened, of env threadWakeEvent]
    show ?thesis
      unfolding Let_def endTime opened sum.case prod.case
      using closeWaitList_error [of valuePointer waitList]
      by (auto simp: waitOnAddress_def Let_def endTime opened pushed waitForEvent_def
          waitOnAddress_timedOut_def wakeEventsOf_def removeWakeEvent_def consumeSignal_def
          split: sum.splits option.splits prod.splits if_splits)
  qed
qed

text \<open>
  Four runs from the idle state: a value that differs; a timeout of 0 with nobody
  waking; a thread woken by a \<open>wakeAddress\<close> of another thread while it is blocked;
  and a timeout of 0 with that \<open>wakeAddress\<close> arriving after the wait has timed out
  and before the thread locks the wait list again.
\<close>

lemmas run_defs =
  waitOnAddress_def getEndTimeFromTimeout_infinite getEndTimeFromTimeout_zero
  quietEnvironment_def wakingEnvironment_def lateWakingEnvironment_def Let_def
  idleRuntime_def emptiedRuntime_def openWaitList_def newWaitList_def closeWaitList_def
  closeWaitList_decrement_def closeWaitList_recheck_def lookupWaitList_def storeWaitList_def
  deleteWaitList_def threadEvent_def pushWakeEvent_def waitForEvent_def
  waitOnAddress_timedOut_def UINT64_MAX_def wakeAddress_def wakeAddress_locked_def
  UINT32_MAX_def signalLoop.simps signalEvent_def fun_upd_idem

lemma run_not_equal:
  "waitOnAddress (quietEnvironment (7 :: I32)) None 4096 8 (Infinity False) idleRuntime
     = (Inr 1, None, emptiedRuntime)"
  by (simp add: run_defs)

lemma run_timed_out:
  "waitOnAddress (quietEnvironment (0 :: I32)) None 4096 0 (Finite 0) idleRuntime
     = (Inr 2, Some 7, emptiedRuntime)"
  by (simp add: run_defs)

lemma run_woken:
  "waitOnAddress (wakingEnvironment (0 :: I32)) None 4096 0 (Infinity False) idleRuntime
     = (Inr 0, Some 7, emptiedRuntime)"
  by (simp add: run_defs)

lemma run_woken_late:
  "waitOnAddress (lateWakingEnvironment (0 :: I32)) None 4096 0 (Finite 0) idleRuntime
     = (Inr 0, Some 7, emptiedRuntime)"
  by (simp add: run_defs)

lemma registered_idle:
  "registered env None 4096 idleRuntime =
     \<lparr>waitLists = [Some \<lparr>wakeEvents = [createdEvent env], numReferences = 1\<rparr>],
      addressToWaitListMap = [4096 \<mapsto> 0], signaledEvents = (\<lambda>e. False)\<rparr>"
  by (simp add: registered_def run_defs)

theorem waitOnAddress_return_codes_witness:
  "waitOnAddress (quietEnvironment (7 :: I32)) None 4096 8 (Infinity False) idleRuntime
     = (Inr 1, None, emptiedRuntime) \<and>
   memoryContents (quietEnvironment (7 :: I32)) 4096 \<noteq> 8 \<and>
   waitOnAddress (quietEnvironment (0 :: I32)) None 4096 0 (Finite 0) idleRuntime
     = (Inr 2, Some 7, emptiedRuntime) \<and>
   7 \<in> set (wakeEventsOf (registered (quietEnvironment (0 :: I32)) None 4096 idleRuntime) 0) \<and>
   waitOnAddress (wakingEnvironment (0 :: I32)) None 4096 0 (Infinity False) idleRuntime
     = (Inr 0, Some 7, emptiedRuntime) \<and>
   signaledEvents (otherThreadsWhileBlocked (wakingEnvironment (0 :: I32))
      (registered (wakingEnvironment (0 :: I32)) None 4096 idleRuntime)) 7 \<and>
   waitOnAddress (lateWakingEnvironment (0 :: I32)) None 4096 0 (Finite 0) idleRuntime
     = (Inr 0, Some 7, emptiedRuntime) \<and>
   \<not> signaledEvents (otherThreadsWhileBlocked (lateWakingEnvironment (0 :: I32))
      (registered (lateWakingEnvironment (0 :: I32)) None 4096 idleRuntime)) 7 \<and>
   signaledEvents (otherThreadsBeforeRelock (lateWakingEnvironment (0 :: I32))
     (otherThreadsWhileBlocked (lateWakingEnvironment (0 :: I32))
      (registered (lateWakingEnvironment (0 :: I32)) None 4096 idleRuntime))) 7"
proof -
  have opened: "openWaitList 4096 idleRuntime =
     Inr (0, \<lparr>waitLists = [Some \<lparr>wakeEvents = [], numReferences = 1\<rparr>],
              addressToWaitListMap = [4096 \<mapsto> 0], signaledEvents = (\<lambda>e. False)\<rparr>)"
    by (simp add: run_defs)
  note t = waitOnAddress_return_codes [where valuePointer = 4096 and s = idleRuntime
      and threadWakeEvent = None, unfolded Let_def opened sum.case prod.case]
  have a: "memoryContents (quietEnvironment (7 :: I32)) 4096 \<noteq> 8"
    using t [of "quietEnvironment (7 :: I32)" 8 "Infinity False"] run_not_equal
    by (auto simp: getEndTimeFromTimeout_infinite)
  have b: "7 \<in> set (wakeEventsOf (registered (quietEnvironment (0 :: I32)) None 4096 idleRuntime) 0)"
    using t [of "quietEnvironment (0 :: I32)" 0 "Finite 0"] run_timed_out
    by (auto simp: getEndTimeFromTimeout_zero threadEvent_def quietEnvironment_def)
  have c: "signaledEvents (otherThreadsWhileBlocked (wakingEnvironment (0 :: I32))
      (registered (wakingEnvironment (0 :: I32)) None 4096 idleRuntime)) 7"
    using t [of "wakingEnvironment (0 :: I32)" 0 "Infinity False"] run_woken
    by (auto simp: getEndTimeFromTimeout_infinite threadEvent_def wakingEnvironment_def
        quietEnvironment_def)
  have d1: "\<not> signaledEvents (otherThreadsWhileBlocked (lateWakingEnvironment (0 :: I32))
      (registered (lateWakingEnvironment (0 :: I32)) None 4096 idleRuntime)) 7"
    unfolding registered_idle by (simp add: lateWakingEnvironment_def quietEnvironment_def)
  have d2: "signaledEvents (otherThreadsBeforeRelock (lateWakingEnvironment (0 :: I32))
     (otherThreadsWhileBlocked (lateWakingEnvironment (0 :: I32))
      (registered (lateWakingEnvironment (0 :: I32)) None 4096 idleRuntime))) 7"
    using t [of "lateWakingEnvironment (0 :: I32)" 0 "Finite 0"] run_woken_late d1
    by (auto simp: getEndTimeFromTimeout_zero threadEvent_def lateWakingEnvironment_def
        quietEnvironment_def)
  note d = d1 d2
  show ?thesis
    using a b c d run_not_equal run_timed_out run_woken run_woken_late by simp
qed

subsection \<open>The invariant of the address table\<close>

lemma holders_Cons:
  "holders ((a, q, ph) # hs) p = (if q = p \<and> ph = Holding then Suc (holders hs p) else holders hs p)"
  by (simp add: holders_def)

lemma holders_remove1:
  "holders (remove1 (a, q, ph) hs) p =
     (if q = p \<and> ph = Holding \<and> (a, q, ph) \<in> set hs then holders hs p - 1 else holders hs p)"
  by (auto simp: holders_def filter_remove1 length_remove1 remove1_idem)

lemma holders_le: "holders hs p \<le> length hs"
  by (simp add: holders_def)

lemma holders_pos: "(a, p, Holding) \<in> set hs \<Longrightarrow> 0 < holders hs p"
  by (auto simp: holders_def filter_empty_conv)

lemma entriesCountedD:
  assumes "entriesCounted (s, hs)" and "addressToWaitListMap s a = Some p"
  shows "\<exists>object. lookupWaitList s p = Some object \<and>
    unat (numReferences object) = holders hs p \<and>
    (numReferences object = 0 \<longrightarrow> (a, p, Rechecking) \<in> set hs)"
  using assms unfolding entriesCounted_def by simp

lemma entriesCountedI:
  assumes "\<And>a p. addressToWaitListMap s a = Some p \<Longrightarrow>
      \<exists>object. lookupWaitList s p = Some object \<and>
           unat (numReferences object) = holders hs p \<and>
           (numReferences object = 0 \<longrightarrow> (a, p, Rechecking) \<in> set hs)"
  shows "entriesCounted (s, hs)"
  using assms unfolding entriesCounted_def by simp

lemma tableOneToOneD:
  assumes "tableOneToOne (s, hs)"
  shows "addressToWaitListMap s a = Some p \<Longrightarrow> addressToWaitListMap s b = Some p \<Longrightarrow> a = b"
    and "lookupWaitList s p = Some object \<Longrightarrow> \<exists>a. addressToWaitListMap s a = Some p"
  using assms unfolding tableOneToOne_def by auto

lemma tableOneToOneI:
  assumes "\<And>a b p. addressToWaitListMap s a = Some p \<Longrightarrow> addressToWaitListMap s b = Some p
      \<Longrightarrow> a = b"
    and "\<And>p object. lookupWaitList s p = Some object \<Longrightarrow> \<exists>a. addressToWaitListMap s a = Some p"
  shows "tableOneToOne (s, hs)"
  using assms unfolding tableOneToOne_def by auto

lemma handlesValidD:
  assumes "handlesValid (s, hs)" and "(a, p, ph) \<in> set hs"
  shows "p < length (waitLists s)"
    and "ph = Holding \<Longrightarrow> addressToWaitListMap s a = Some p"
    and "lookupWaitList s p = Some object \<Longrightarrow> addressToWaitListMap s a = Some p"
  using assms unfolding handlesValid_def by auto

lemma handlesValidI:
  assumes "\<And>a p ph. (a, p, ph) \<in> set hs \<Longrightarrow> p < length (waitLists s)"
    and "\<And>a p. (a, p, Holding) \<in> set hs \<Longrightarrow> addressToWaitListMap s a = Some p"
    and "\<And>a p ph object. (a, p, ph) \<in> set hs \<Longrightarrow> lookupWaitList s p = Some object
       \<Longrightarrow> addressToWaitListMap s a = Some p"
  shows "handlesValid (s, hs)"
  unfolding handlesValid_def using assms by fastforce

lemma invariant_idle: "systemInvariant (idleRuntime, [])"
  by (simp add: systemInvariant_def entriesCounted_def tableOneToOne_def handlesValid_def
      idleRuntime_def lookupWaitList_def)

lemma invariant_opens_absent:
  assumes counted: "entriesCounted (s, hs)" and one: "tableOneToOne (s, hs)"
    and valid: "handlesValid (s, hs)"
    and absent: "addressToWaitListMap s a = None"
    and s': "s' = s\<lparr>waitLists := waitLists s @ [Some newWaitList],
            addressToWaitListMap := (addressToWaitListMap s)(a \<mapsto> length (waitLists s))\<rparr>"
    and hs': "hs' = (a, length (waitLists s), Holding) # hs"
  shows "systemInvariant (s', hs')"
proof -
  define n where "n = length (waitLists s)"
  have lookup': "lookupWaitList s' q = (if q = n then Some newWaitList else lookupWaitList s q)"
    for q
    by (auto simp: s' n_def lookupWaitList_def nth_append)
  have table': "addressToWaitListMap s' b = (if b = a then Some n else addressToWaitListMap s b)"
    for b
    by (simp add: s' n_def)
  have fresh: "addressToWaitListMap s b \<noteq> Some n" for b
  proof
    assume "addressToWaitListMap s b = Some n"
    then obtain object where "lookupWaitList s n = Some object"
      using entriesCountedD [OF counted] by blast
    then show False
      by (simp add: lookupWaitList_def n_def)
  qed
  have unheld: "(b, n, ph) \<notin> set hs" for b ph
    using handlesValidD(1) [OF valid, of b n ph] by (auto simp: n_def)
  have nobody: "holders hs n = 0"
    using unheld by (auto simp: holders_def filter_empty_conv)
  have "entriesCounted (s', hs')"
  proof (rule entriesCountedI)
    fix b p
    assume entry: "addressToWaitListMap s' b = Some p"
    show "\<exists>object. lookupWaitList s' p = Some object \<and>
           unat (numReferences object) = holders hs' p \<and>
           (numReferences object = 0 \<longrightarrow> (b, p, Rechecking) \<in> set hs')"
    proof (cases "b = a")
      case True
      then have "p = n"
        using entry by (simp add: table')
      then show ?thesis
        using nobody by (simp add: lookup' hs' holders_Cons newWaitList_def n_def)
    next
      case False
      then have old: "addressToWaitListMap s b = Some p"
        using entry by (simp add: table')
      then have "p \<noteq> n"
        using fresh by auto
      from entriesCountedD [OF counted old] obtain object
        where "lookupWaitList s p = Some object"
        and "unat (numReferences object) = holders hs p"
        and "numReferences object = 0 \<longrightarrow> (b, p, Rechecking) \<in> set hs"
        by blast
      then show ?thesis
        using \<open>p \<noteq> n\<close> by (auto simp: lookup' hs' holders_Cons n_def)
    qed
  qed
  moreover have "tableOneToOne (s', hs')"
  proof (rule tableOneToOneI)
    fix b c p
    assume "addressToWaitListMap s' b = Some p" and "addressToWaitListMap s' c = Some p"
    then show "b = c"
      using fresh tableOneToOneD(1) [OF one, of b p c]
      by (auto simp: table' split: if_splits)
  next
    fix p object
    assume "lookupWaitList s' p = Some object"
    then show "\<exists>b. addressToWaitListMap s' b = Some p"
    proof (cases "p = n")
      case True
      then show ?thesis
        by (auto simp: table')
    next
      case False
      with \<open>lookupWaitList s' p = Some object\<close> have "lookupWaitList s p = Some object"
        by (simp add: lookup')
      then obtain b where b: "addressToWaitListMap s b = Some p"
        using tableOneToOneD(2) [OF one] by blast
      then have "b \<noteq> a"
        using absent by auto
      then show ?thesis
        using b by (auto simp: table')
    qed
  qed
  moreover have "handlesValid (s', hs')"
  proof (rule handlesValidI)
    fix b p ph
    assume "(b, p, ph) \<in> set hs'"
    then show "p < length (waitLists s')"
      using handlesValidD(1) [OF valid, of b p ph] by (auto simp: hs' s')
  next
    fix b p
    assume "(b, p, Holding) \<in> set hs'"
    then show "addressToWaitListMap s' b = Some p"
      using handlesValidD(2) [OF valid, of b p Holding] absent
      by (auto simp: hs' table' n_def)
  next
    fix b p ph object
    assume "(b, p, ph) \<in> set hs'" and "lookupWaitList s' p = Some object"
    then show "addressToWaitListMap s' b = Some p"
      using handlesValidD(3) [OF valid, of b p ph object] absent unheld [of b ph]
      by (auto simp: hs' table' lookup' n_def split: if_splits)
  qed
  ultimately show ?thesis
    by (simp add: systemInvariant_def)
qed

text \<open>A step that changes one live list, keeps its place, and the table.\<close>

lemma invariant_update:
  assumes counted: "entriesCounted (s, hs)" and one: "tableOneToOne (s, hs)"
    and valid: "handlesValid (s, hs)"
    and entry: "addressToWaitListMap s a = Some p"
    and live: "lookupWaitList s p = Some object"
    and s': "s' = storeWaitList p object' s"
    and count': "unat (numReferences object') = holders hs' p"
    and zero': "numReferences object' = 0 \<Longrightarrow> (a, p, Rechecking) \<in> set hs'"
    and others: "\<And>q. q \<noteq> p \<Longrightarrow> holders hs' q = holders hs q"
    and rechecking: "\<And>b q. q \<noteq> p \<Longrightarrow> (b, q, Rechecking) \<in> set hs
       \<Longrightarrow> (b, q, Rechecking) \<in> set hs'"
    and sub: "\<And>h. h \<in> set hs' \<Longrightarrow> h \<in> set hs \<or> h = (a, p, Holding) \<or> h = (a, p, Rechecking)"
  shows "systemInvariant (s', hs')"
proof -
  have inside: "p < length (waitLists s)"
    using live by (rule lookup_live)
  have lookup': "lookupWaitList s' q = (if q = p then Some object' else lookupWaitList s q)"
    for q
    using inside by (simp add: s' lookup_storeWaitList)
  have table': "addressToWaitListMap s' = addressToWaitListMap s"
    by (simp add: s')
  have "entriesCounted (s', hs')"
  proof (rule entriesCountedI)
    fix b q
    assume "addressToWaitListMap s' b = Some q"
    then have old: "addressToWaitListMap s b = Some q"
      by (simp add: table')
    show "\<exists>object. lookupWaitList s' q = Some object \<and>
           unat (numReferences object) = holders hs' q \<and>
           (numReferences object = 0 \<longrightarrow> (b, q, Rechecking) \<in> set hs')"
    proof (cases "q = p")
      case True
      then have "b = a"
        using old entry tableOneToOneD(1) [OF one] by blast
      then show ?thesis
        using True count' zero' by (simp add: lookup')
    next
      case False
      from entriesCountedD [OF counted old] obtain x where "lookupWaitList s q = Some x"
        and "unat (numReferences x) = holders hs q"
        and "numReferences x = 0 \<longrightarrow> (b, q, Rechecking) \<in> set hs"
        by blast
      then show ?thesis
        using False others rechecking by (auto simp: lookup')
    qed
  qed
  moreover have "tableOneToOne (s', hs')"
  proof (rule tableOneToOneI)
    fix b c q
    assume "addressToWaitListMap s' b = Some q" and "addressToWaitListMap s' c = Some q"
    then show "b = c"
      using tableOneToOneD(1) [OF one, of b q c] by (simp add: table')
  next
    fix q x
    assume "lookupWaitList s' q = Some x"
    then show "\<exists>b. addressToWaitListMap s' b = Some q"
      using tableOneToOneD(2) [OF one, of q] entry
      by (auto simp: lookup' table' split: if_splits)
  qed
  moreover have "handlesValid (s', hs')"
  proof (rule handlesValidI)
    fix b q ph
    assume "(b, q, ph) \<in> set hs'"
    then show "q < length (waitLists s')"
      using sub [of "(b, q, ph)"] handlesValidD(1) [OF valid, of b q ph] inside
      by (auto simp: s')
  next
    fix b q
    assume "(b, q, Holding) \<in> set hs'"
    then show "addressToWaitListMap s' b = Some q"
      using sub [of "(b, q, Holding)"] handlesValidD(2) [OF valid, of b q Holding] entry
      by (auto simp: table')
  next
    fix b q ph x
    assume "(b, q, ph) \<in> set hs'" and "lookupWaitList s' q = Some x"
    then show "addressToWaitListMap s' b = Some q"
      using sub [of "(b, q, ph)"] handlesValidD(3) [OF valid, of b q ph] entry live
      by (auto simp: table' lookup' split: if_splits)
  qed
  ultimately show ?thesis
    by (simp add: systemInvariant_def)
qed

lemma invariant_delete:
  assumes counted: "entriesCounted (s, hs)" and one: "tableOneToOne (s, hs)"
    and valid: "handlesValid (s, hs)"
    and handle: "(a, p, Rechecking) \<in> set hs"
    and live: "lookupWaitList s p = Some object"
    and zero: "numReferences object = 0"
    and s': "s' = (deleteWaitList p s)\<lparr>addressToWaitListMap := (addressToWaitListMap s)(a := None)\<rparr>"
    and hs': "hs' = remove1 (a, p, Rechecking) hs"
  shows "systemInvariant (s', hs')"
proof -
  have entry: "addressToWaitListMap s a = Some p"
    using handlesValidD(3) [OF valid handle live] .
  have lookup': "lookupWaitList s' q = (if q = p then None else lookupWaitList s q)" for q
    by (simp add: s' lookupWaitList_def deleteWaitList_def)
  have table': "addressToWaitListMap s' b = (if b = a then None else addressToWaitListMap s b)"
    for b
    by (simp add: s')
  have only: "addressToWaitListMap s b = Some p \<Longrightarrow> b = a" for b
    using entry tableOneToOneD(1) [OF one] by blast
  have holders': "holders hs' q = holders hs q" for q
    by (simp add: hs' holders_remove1)
  have nobody: "holders hs p = 0"
    using entriesCountedD [OF counted entry] live zero by auto
  have unheld: "(b, p, Holding) \<notin> set hs" for b
    using nobody holders_pos [of b p hs] by auto
  have kept: "h \<in> set hs \<Longrightarrow> h \<noteq> (a, p, Rechecking) \<Longrightarrow> h \<in> set hs'" for h
    by (simp add: hs')
  have sub: "h \<in> set hs' \<Longrightarrow> h \<in> set hs" for h
    using set_remove1_subset [of "(a, p, Rechecking)" hs] by (auto simp: hs')
  have "entriesCounted (s', hs')"
  proof (rule entriesCountedI)
    fix b q
    assume "addressToWaitListMap s' b = Some q"
    then have "b \<noteq> a" and old: "addressToWaitListMap s b = Some q"
      by (auto simp: table' split: if_splits)
    then have "q \<noteq> p"
      using only by auto
    from entriesCountedD [OF counted old] obtain x where "lookupWaitList s q = Some x"
      and "unat (numReferences x) = holders hs q"
      and "numReferences x = 0 \<longrightarrow> (b, q, Rechecking) \<in> set hs"
      by blast
    then show "\<exists>object. lookupWaitList s' q = Some object \<and>
           unat (numReferences object) = holders hs' q \<and>
           (numReferences object = 0 \<longrightarrow> (b, q, Rechecking) \<in> set hs')"
      using \<open>q \<noteq> p\<close> kept [of "(b, q, Rechecking)"] by (auto simp: lookup' holders')
  qed
  moreover have "tableOneToOne (s', hs')"
  proof (rule tableOneToOneI)
    fix b c q
    assume "addressToWaitListMap s' b = Some q" and "addressToWaitListMap s' c = Some q"
    then show "b = c"
      using tableOneToOneD(1) [OF one, of b q c] by (auto simp: table' split: if_splits)
  next
    fix q x
    assume "lookupWaitList s' q = Some x"
    then have "q \<noteq> p" and "lookupWaitList s q = Some x"
      by (auto simp: lookup' split: if_splits)
    then obtain b where b: "addressToWaitListMap s b = Some q"
      using tableOneToOneD(2) [OF one] by blast
    then have "b \<noteq> a"
      using entry \<open>q \<noteq> p\<close> by auto
    then show "\<exists>b. addressToWaitListMap s' b = Some q"
      using b by (auto simp: table')
  qed
  moreover have "handlesValid (s', hs')"
  proof (rule handlesValidI)
    fix b q ph
    assume "(b, q, ph) \<in> set hs'"
    then show "q < length (waitLists s')"
      using sub handlesValidD(1) [OF valid, of b q ph] by (auto simp: s')
  next
    fix b q
    assume "(b, q, Holding) \<in> set hs'"
    then have h: "(b, q, Holding) \<in> set hs"
      by (rule sub)
    then have old: "addressToWaitListMap s b = Some q"
      using handlesValidD(2) [OF valid] by blast
    have "q \<noteq> p"
      using h unheld by auto
    then have "b \<noteq> a"
      using old entry by auto
    then show "addressToWaitListMap s' b = Some q"
      using old by (simp add: table')
  next
    fix b q ph x
    assume "(b, q, ph) \<in> set hs'" and "lookupWaitList s' q = Some x"
    then have h: "(b, q, ph) \<in> set hs" and "q \<noteq> p" and "lookupWaitList s q = Some x"
      using sub by (auto simp: lookup' split: if_splits)
    then have old: "addressToWaitListMap s b = Some q"
      using handlesValidD(3) [OF valid] by blast
    then have "b \<noteq> a"
      using entry \<open>q \<noteq> p\<close> by auto
    then show "addressToWaitListMap s' b = Some q"
      using old by (simp add: table')
  qed
  ultimately show ?thesis
    by (simp add: systemInvariant_def)
qed

lemma systemInvariant_step:
  assumes inv: "systemInvariant S" and step: "perform action S = Inr S'"
    and bound: "length (snd S') < 2 ^ 64"
  shows "systemInvariant S'"
proof -
  obtain s hs where S: "S = (s, hs)"
    by (cases S)
  obtain s' hs' where S': "S' = (s', hs')"
    by (cases S')
  have counted: "entriesCounted (s, hs)" and one: "tableOneToOne (s, hs)"
    and valid: "handlesValid (s, hs)"
    using inv by (simp_all add: systemInvariant_def S)
  show ?thesis
  proof (cases action)
    case (Opens a)
    show ?thesis
    proof (cases "addressToWaitListMap s a")
      case None
      have "s' = s\<lparr>waitLists := waitLists s @ [Some newWaitList],
            addressToWaitListMap := (addressToWaitListMap s)(a \<mapsto> length (waitLists s))\<rparr>"
        and "hs' = (a, length (waitLists s), Holding) # hs"
        using step by (simp_all add: S S' Opens openWaitList_absent [OF None])
      then show ?thesis
        unfolding S' using counted one valid None by (intro invariant_opens_absent)
    next
      case (Some p)
      from entriesCountedD [OF counted Some] obtain object
        where live: "lookupWaitList s p = Some object"
        and count: "unat (numReferences object) = holders hs p"
        by blast
      have s': "s' = storeWaitList p (object\<lparr>numReferences := numReferences object + 1\<rparr>) s"
        and hs': "hs' = (a, p, Holding) # hs"
        using step by (simp_all add: S S' Opens openWaitList_present [OF Some live])
      have "holders hs p \<le> length hs"
        by (rule holders_le)
      then have "unat (numReferences object) + unat (1 :: UptrWord) < 2 ^ LENGTH(64)"
        using bound count by (simp add: S' hs')
      then have suc: "unat (numReferences object + 1) = Suc (holders hs p)"
        using count by (simp add: unat_add_lem [THEN iffD1])
      then have nonzero: "numReferences object + 1 \<noteq> 0"
        by (metis Zero_not_Suc unat_eq_zero)
      show ?thesis
        unfolding S'
        by (rule invariant_update [OF counted one valid Some live s'])
          (use suc nonzero in \<open>auto simp: hs' holders_Cons\<close>)
    qed
  next
    case (ChangesEvents a p events)
    show ?thesis
    proof (cases "(a, p, Holding) \<in> set hs")
      case False
      then show ?thesis
        using step inv by (simp add: S S' ChangesEvents)
    next
      case True
      then have entry: "addressToWaitListMap s a = Some p"
        using handlesValidD(2) [OF valid] by blast
      from entriesCountedD [OF counted entry] obtain object
        where live: "lookupWaitList s p = Some object"
        and count: "unat (numReferences object) = holders hs p"
        and zero: "numReferences object = 0 \<longrightarrow> (a, p, Rechecking) \<in> set hs"
        by blast
      have s': "s' = storeWaitList p (object\<lparr>wakeEvents := events\<rparr>) s" and hs': "hs' = hs"
        using step True live by (simp_all add: S S' ChangesEvents)
      show ?thesis
        unfolding S'
        by (rule invariant_update [OF counted one valid entry live s'])
          (use count zero in \<open>auto simp: hs'\<close>)
    qed
  next
    case (Decrements a p)
    show ?thesis
    proof (cases "(a, p, Holding) \<in> set hs")
      case False
      then show ?thesis
        using step inv by (simp add: S S' Decrements)
    next
      case True
      then have entry: "addressToWaitListMap s a = Some p"
        using handlesValidD(2) [OF valid] by blast
      from entriesCountedD [OF counted entry] obtain object
        where live: "lookupWaitList s p = Some object"
        and count: "unat (numReferences object) = holders hs p"
        by blast
      have pos: "0 < holders hs p"
        using True by (rule holders_pos)
      then have nonzero: "numReferences object \<noteq> 0"
        using count by auto
      have s': "s' = storeWaitList p (object\<lparr>numReferences := numReferences object - 1\<rparr>) s"
        and hs': "hs' = (if numReferences object = 1 then [(a, p, Rechecking)] else [])
                         @ remove1 (a, p, Holding) hs"
        using step True by (simp_all add: S S' Decrements closeWaitList_decrement_live [OF live])
      have less: "unat (numReferences object - 1) = holders hs p - 1"
        using unat_minus_one [OF nonzero] count by simp
      have sub: "h \<in> set (remove1 (a, p, Holding) hs) \<Longrightarrow> h \<in> set hs" for h
        using set_remove1_subset [of "(a, p, Holding)" hs] by auto
      show ?thesis
        unfolding S'
        by (rule invariant_update [OF counted one valid entry live s'])
          (use less True sub in \<open>auto simp: hs' holders_Cons holders_remove1\<close>)
    qed
  next
    case (Rechecks a p)
    show ?thesis
    proof (cases "(a, p, Rechecking) \<in> set hs")
      case False
      then show ?thesis
        using step inv by (simp add: S S' Rechecks)
    next
      case True
      from step True obtain object where live: "lookupWaitList s p = Some object"
        by (auto simp: S S' Rechecks closeWaitList_recheck_def split: option.splits)
      have entry: "addressToWaitListMap s a = Some p"
        using handlesValidD(3) [OF valid True live] .
      show ?thesis
      proof (cases "numReferences object = 0")
        case zero: True
        have "s' = (deleteWaitList p s)
            \<lparr>addressToWaitListMap := (addressToWaitListMap s)(a := None)\<rparr>"
          and "hs' = remove1 (a, p, Rechecking) hs"
          using step True zero
          by (auto simp: S S' Rechecks closeWaitList_recheck_live [OF live] split: if_splits)
        then show ?thesis
          unfolding S' using counted one valid True live zero by (intro invariant_delete)
      next
        case False
        from entriesCountedD [OF counted entry] live
        have count: "unat (numReferences object) = holders hs p"
          by auto
        have s': "s' = storeWaitList p object s" and hs': "hs' = remove1 (a, p, Rechecking) hs"
          using step True False storeWaitList_same [OF live]
          by (simp_all add: S S' Rechecks closeWaitList_recheck_live [OF live])
        have sub: "h \<in> set (remove1 (a, p, Rechecking) hs) \<Longrightarrow> h \<in> set hs" for h
          using set_remove1_subset [of "(a, p, Rechecking)" hs] by auto
        show ?thesis
          unfolding S'
          by (rule invariant_update [OF counted one valid entry live s'])
            (use count False sub in \<open>auto simp: hs' holders_remove1\<close>)
      qed
    qed
  qed
qed

lemma perform_handles:
  assumes "perform action S = Inr S'"
  shows "length (snd S') \<le> Suc (length (snd S))"
proof -
  obtain s hs where S: "S = (s, hs)"
    by (cases S)
  show ?thesis
  proof (cases action)
    case (Opens a)
    then show ?thesis
      using assms by (auto simp: S split: sum.splits prod.splits)
  next
    case (ChangesEvents a p events)
    then show ?thesis
      using assms by (auto simp: S split: option.splits if_splits)
  next
    case (Decrements a p)
    then show ?thesis
      using assms by (auto simp: S length_remove1 split: sum.splits prod.splits if_splits)
  next
    case (Rechecks a p)
    then show ?thesis
      using assms by (auto simp: S length_remove1 split: sum.splits if_splits)
  qed
qed

lemma systemInvariant_run:
  assumes "systemInvariant S" and "run actions S = Inr S'" and "callersBounded actions S"
  shows "systemInvariant S'"
  using assms
proof (induction actions arbitrary: S)
  case Nil
  then show ?case by simp
next
  case (Cons action actions)
  from Cons.prems(2) obtain S1 where step: "perform action S = Inr S1"
    and rest: "run actions S1 = Inr S'"
    by (auto split: sum.splits)
  have bounded: "callersBounded actions S1"
    using Cons.prems(3) step by simp
  then have "length (snd S1) \<le> unat UINTPTR_MAX"
    by (cases actions) simp_all
  then have "length (snd S1) < 2 ^ 64"
    by (simp add: UINTPTR_MAX_def)
  with Cons.prems(1) step have "systemInvariant S1"
    by (rule systemInvariant_step)
  then show ?case
    using rest bounded by (rule Cons.IH)
qed

lemma openWaitList_effect:
  assumes "openWaitList a s = Inr (p, s')"
  shows "addressToWaitListMap s' a = Some p \<and>
    lookupWaitList s' p =
      Some (case waitListAt s a of
              None \<Rightarrow> \<lparr>wakeEvents = [], numReferences = 1\<rparr>
            | Some object \<Rightarrow> object\<lparr>numReferences := numReferences object + 1\<rparr>) \<and>
    (waitListAt s a = None \<longrightarrow> lookupWaitList s p = None) \<and>
    (\<forall>b. b \<noteq> a \<longrightarrow> addressToWaitListMap s' b = addressToWaitListMap s b) \<and>
    (\<forall>q. q \<noteq> p \<longrightarrow> lookupWaitList s' q = lookupWaitList s q) \<and>
    signaledEvents s' = signaledEvents s"
proof (intro conjI allI)
  show "addressToWaitListMap s' a = Some p"
    using assms
    by (auto simp: openWaitList_def Let_def split: option.splits)
  show "lookupWaitList s' p =
      Some (case waitListAt s a of
              None \<Rightarrow> \<lparr>wakeEvents = [], numReferences = 1\<rparr>
            | Some object \<Rightarrow> object\<lparr>numReferences := numReferences object + 1\<rparr>)"
    using assms
    by (auto simp: openWaitList_def Let_def waitListAt_def newWaitList_def lookupWaitList_def
        storeWaitList_def split: option.splits if_splits)
  show "waitListAt s a = None \<longrightarrow> lookupWaitList s p = None"
    using assms
    by (auto simp: openWaitList_def Let_def waitListAt_def lookupWaitList_def
        split: option.splits if_splits)
  show "b \<noteq> a \<longrightarrow> addressToWaitListMap s' b = addressToWaitListMap s b" for b
    using assms
    by (auto simp: openWaitList_def Let_def split: option.splits)
  show "q \<noteq> p \<longrightarrow> lookupWaitList s' q = lookupWaitList s q" for q
    using assms
    by (auto simp: openWaitList_def Let_def lookupWaitList_def storeWaitList_def nth_append
        split: option.splits if_splits)
  show "signaledEvents s' = signaledEvents s"
    using assms
    by (auto simp: openWaitList_def Let_def split: option.splits)
qed

lemma openWaitList_returns:
  assumes "\<not> danglingEntry s a"
  shows "\<exists>p s'. openWaitList a s = Inr (p, s')"
  using assms
  by (auto simp: danglingEntry_def openWaitList_def Let_def split: option.splits)

lemma openWaitList_fails:
  assumes "danglingEntry s a"
  shows "openWaitList a s = Inl danglingWaitList"
  using assms
  by (auto simp: danglingEntry_def openWaitList_def Let_def split: option.splits)

lemma storeWaitList_effect:
  assumes "lookupWaitList s p = Some object"
  shows "lookupWaitList (storeWaitList p object' s) p = Some object' \<and>
    addressToWaitListMap (storeWaitList p object' s) = addressToWaitListMap s \<and>
    (\<forall>q. q \<noteq> p \<longrightarrow> lookupWaitList (storeWaitList p object' s) q = lookupWaitList s q) \<and>
    signaledEvents (storeWaitList p object' s) = signaledEvents s"
  using lookup_live [OF assms] by (simp add: lookup_storeWaitList)

lemma erase_effect:
  "lookupWaitList ((deleteWaitList p s)
       \<lparr>addressToWaitListMap := (addressToWaitListMap s)(a := None)\<rparr>) p = None \<and>
   addressToWaitListMap ((deleteWaitList p s)
       \<lparr>addressToWaitListMap := (addressToWaitListMap s)(a := None)\<rparr>) a = None \<and>
   (\<forall>b. b \<noteq> a \<longrightarrow>
      addressToWaitListMap ((deleteWaitList p s)
        \<lparr>addressToWaitListMap := (addressToWaitListMap s)(a := None)\<rparr>) b
      = addressToWaitListMap s b) \<and>
   (\<forall>q. q \<noteq> p \<longrightarrow>
      lookupWaitList ((deleteWaitList p s)
        \<lparr>addressToWaitListMap := (addressToWaitListMap s)(a := None)\<rparr>) q
      = lookupWaitList s q) \<and>
   signaledEvents ((deleteWaitList p s)
       \<lparr>addressToWaitListMap := (addressToWaitListMap s)(a := None)\<rparr>) = signaledEvents s"
  by (simp add: lookupWaitList_def deleteWaitList_def)

lemma systemInvariant_entries:
  assumes "systemInvariant (s, handles)"
  shows "\<forall>address waitList. addressToWaitListMap s address = Some waitList \<longrightarrow>
       (\<exists>object. lookupWaitList s waitList = Some object \<and>
          unat (numReferences object) = holders handles waitList \<and>
          (numReferences object = 0 \<longrightarrow> (address, waitList, Rechecking) \<in> set handles))"
    and "\<forall>waitList. lookupWaitList s waitList \<noteq> None \<longrightarrow>
       (\<exists>address. addressToWaitListMap s address = Some waitList)"
  using assms by (simp_all add: systemInvariant_def entriesCounted_def tableOneToOne_def)

text \<open>
  In a state that satisfies the invariant, the only steps that fail are re-checks:
  of a list that has been deleted, or of a list with a count of 0 that has events.
\<close>

lemma perform_fails:
  assumes inv: "systemInvariant (s, hs)" and fails: "perform action (s, hs) = Inl e"
  shows "\<exists>a p. action = Rechecks a p \<and> (a, p, Rechecking) \<in> set hs \<and>
    (lookupWaitList s p = None \<and> e = danglingWaitList
     \<or> (\<exists>object. lookupWaitList s p = Some object \<and> numReferences object = 0 \<and>
          wakeEvents object \<noteq> [] \<and> e = assertionFailure))"
proof -
  have counted: "entriesCounted (s, hs)" and valid: "handlesValid (s, hs)"
    using inv by (simp_all add: systemInvariant_def)
  have held: "(a, p, Holding) \<in> set hs \<Longrightarrow> \<exists>object. lookupWaitList s p = Some object" for a p
    using handlesValidD(2) [OF valid, of a p Holding] entriesCountedD [OF counted, of a p]
    by blast
  show ?thesis
  proof (cases action)
    case (Opens a)
    have "\<not> danglingEntry s a"
      using entriesCountedD [OF counted, of a]
      by (auto simp: danglingEntry_def split: option.splits)
    then show ?thesis
      using fails openWaitList_returns [of s a] by (auto simp: Opens)
  next
    case (ChangesEvents a p events)
    then show ?thesis
      using fails held [of a p] by (auto split: if_splits option.splits)
  next
    case (Decrements a p)
    then show ?thesis
      using fails held [of a p]
      by (auto simp: closeWaitList_decrement_def Let_def split: if_splits option.splits)
  next
    case (Rechecks a p)
    then show ?thesis
      using fails
      by (auto simp: closeWaitList_recheck_def split: if_splits option.splits sum.splits)
  qed
qed

text \<open>
  C5, as amended. The steps by themselves, in every state. \<open>openWaitList\<close> returns
  unless the entry of the address points to a deleted list, and then it has
  incremented the reference count of the list that the table has for the address,
  or has put a new list with no events and a count of 1 into the table for it;
  every other entry and every other list is as before. Line 68 of \<open>closeWaitList\<close>,
  on a list that has not been deleted, decrements the count, tells whether it has
  reached 0, and changes nothing else. The block of lines 70 to 76, on a list that
  has not been deleted: if it reads a count other than 0 (an \<open>openWaitList\<close> has
  resurrected the list since line 68) it changes nothing, so the entry stays; if it
  reads 0 and the list has events it fails its assertion; if it reads 0 and the
  list has no events it deletes the list and erases the entry of the address, and
  every other entry and every other list is as before. \<open>closeWaitList\<close> as a whole,
  run with no step of another caller in between, on a list that has not been
  deleted: with a count of 1 it deletes the list and erases the entry, or fails the
  assertion if the list has events; with any other count it only decrements. Each
  of the three, on a list that has been deleted, uses the deleted list.

  The steps of callers that run together, from the idle state, in any order that
  never has more callers at once than the count can count. In every state reached,
  every entry of the table points to a list that has not been deleted and whose
  count is the number of callers that hold it; the count is 0 only while some
  caller is between line 68 and line 70 of its \<open>closeWaitList\<close> on that entry; and
  every list that has not been deleted is in the table. In such a state every step
  returns, but for the re-check of a list that has been deleted and the re-check
  that fails its assertion.
\<close>

theorem addressTable_reference_counting:
  "(\<forall>address s.
      (danglingEntry s address \<longrightarrow> openWaitList address s = Inl danglingWaitList) \<and>
      (\<not> danglingEntry s address \<longrightarrow>
         (\<exists>waitList s'. openWaitList address s = Inr (waitList, s') \<and>
            addressToWaitListMap s' address = Some waitList \<and>
            lookupWaitList s' waitList =
              Some (case waitListAt s address of
                      None \<Rightarrow> \<lparr>wakeEvents = [], numReferences = 1\<rparr>
                    | Some object \<Rightarrow> object\<lparr>numReferences := numReferences object + 1\<rparr>) \<and>
            (waitListAt s address = None \<longrightarrow> lookupWaitList s waitList = None) \<and>
            (\<forall>other. other \<noteq> address \<longrightarrow>
               addressToWaitListMap s' other = addressToWaitListMap s other) \<and>
            (\<forall>other. other \<noteq> waitList \<longrightarrow>
               lookupWaitList s' other = lookupWaitList s other) \<and>
            signaledEvents s' = signaledEvents s))) \<and>
   (\<forall>waitList s object. lookupWaitList s waitList = Some object \<longrightarrow>
      (\<exists>s'. closeWaitList_decrement waitList s = Inr (numReferences object = 1, s') \<and>
         lookupWaitList s' waitList = Some (object\<lparr>numReferences := numReferences object - 1\<rparr>) \<and>
         addressToWaitListMap s' = addressToWaitListMap s \<and>
         (\<forall>other. other \<noteq> waitList \<longrightarrow>
            lookupWaitList s' other = lookupWaitList s other) \<and>
         signaledEvents s' = signaledEvents s)) \<and>
   (\<forall>address waitList s object. lookupWaitList s waitList = Some object \<longrightarrow>
      (numReferences object \<noteq> 0 \<longrightarrow> closeWaitList_recheck address waitList s = Inr s) \<and>
      (numReferences object = 0 \<and> wakeEvents object \<noteq> [] \<longrightarrow>
         closeWaitList_recheck address waitList s = Inl assertionFailure) \<and>
      (numReferences object = 0 \<and> wakeEvents object = [] \<longrightarrow>
         (\<exists>s'. closeWaitList_recheck address waitList s = Inr s' \<and>
            lookupWaitList s' waitList = None \<and>
            addressToWaitListMap s' address = None \<and>
            (\<forall>other. other \<noteq> address \<longrightarrow>
               addressToWaitListMap s' other = addressToWaitListMap s other) \<and>
            (\<forall>other. other \<noteq> waitList \<longrightarrow>
               lookupWaitList s' other = lookupWaitList s other) \<and>
            signaledEvents s' = signaledEvents s))) \<and>
   (\<forall>address waitList s object. lookupWaitList s waitList = Some object \<longrightarrow>
      closeWaitList address waitList s =
        (if numReferences object = 1
         then (if wakeEvents object \<noteq> [] then Inl assertionFailure
               else Inr ((deleteWaitList waitList s)
                      \<lparr>addressToWaitListMap := (addressToWaitListMap s)(address := None)\<rparr>))
         else Inr (storeWaitList waitList
                     (object\<lparr>numReferences := numReferences object - 1\<rparr>) s))) \<and>
   (\<forall>address waitList s. lookupWaitList s waitList = None \<longrightarrow>
      closeWaitList_decrement waitList s = Inl danglingWaitList \<and>
      closeWaitList_recheck address waitList s = Inl danglingWaitList \<and>
      closeWaitList address waitList s = Inl danglingWaitList) \<and>
   (\<forall>actions s handles.
      run actions (idleRuntime, []) = Inr (s, handles) \<and>
      callersBounded actions (idleRuntime, []) \<longrightarrow>
      (\<forall>address waitList. addressToWaitListMap s address = Some waitList \<longrightarrow>
         (\<exists>object. lookupWaitList s waitList = Some object \<and>
            unat (numReferences object) = holders handles waitList \<and>
            (numReferences object = 0 \<longrightarrow> (address, waitList, Rechecking) \<in> set handles))) \<and>
      (\<forall>waitList. lookupWaitList s waitList \<noteq> None \<longrightarrow>
         (\<exists>address. addressToWaitListMap s address = Some waitList)) \<and>
      (\<forall>action e. perform action (s, handles) = Inl e \<longrightarrow>
         (\<exists>address waitList. action = Rechecks address waitList \<and>
            (address, waitList, Rechecking) \<in> set handles \<and>
            (lookupWaitList s waitList = None \<and> e = danglingWaitList
             \<or> (\<exists>object. lookupWaitList s waitList = Some object \<and>
                  numReferences object = 0 \<and> wakeEvents object \<noteq> [] \<and>
                  e = assertionFailure)))))"
proof -
  have opens: "(danglingEntry s address \<longrightarrow> openWaitList address s = Inl danglingWaitList) \<and>
      (\<not> danglingEntry s address \<longrightarrow>
         (\<exists>waitList s'. openWaitList address s = Inr (waitList, s') \<and>
            addressToWaitListMap s' address = Some waitList \<and>
            lookupWaitList s' waitList =
              Some (case waitListAt s address of
                      None \<Rightarrow> \<lparr>wakeEvents = [], numReferences = 1\<rparr>
                    | Some object \<Rightarrow> object\<lparr>numReferences := numReferences object + 1\<rparr>) \<and>
            (waitListAt s address = None \<longrightarrow> lookupWaitList s waitList = None) \<and>
            (\<forall>other. other \<noteq> address \<longrightarrow>
               addressToWaitListMap s' other = addressToWaitListMap s other) \<and>
            (\<forall>other. other \<noteq> waitList \<longrightarrow>
               lookupWaitList s' other = lookupWaitList s other) \<and>
            signaledEvents s' = signaledEvents s))" for address s
  proof (intro conjI impI)
    assume "danglingEntry s address"
    then show "openWaitList address s = Inl danglingWaitList"
      by (rule openWaitList_fails)
  next
    assume "\<not> danglingEntry s address"
    then obtain waitList s' where opened: "openWaitList address s = Inr (waitList, s')"
      using openWaitList_returns by blast
    show "\<exists>waitList s'. openWaitList address s = Inr (waitList, s') \<and>
            addressToWaitListMap s' address = Some waitList \<and>
            lookupWaitList s' waitList =
              Some (case waitListAt s address of
                      None \<Rightarrow> \<lparr>wakeEvents = [], numReferences = 1\<rparr>
                    | Some object \<Rightarrow> object\<lparr>numReferences := numReferences object + 1\<rparr>) \<and>
            (waitListAt s address = None \<longrightarrow> lookupWaitList s waitList = None) \<and>
            (\<forall>other. other \<noteq> address \<longrightarrow>
               addressToWaitListMap s' other = addressToWaitListMap s other) \<and>
            (\<forall>other. other \<noteq> waitList \<longrightarrow>
               lookupWaitList s' other = lookupWaitList s other) \<and>
            signaledEvents s' = signaledEvents s"
      by (intro exI [of _ waitList] exI [of _ s'])
        (use opened openWaitList_effect [OF opened] in simp)
  qed
  have decrements: "\<exists>s'. closeWaitList_decrement waitList s = Inr (numReferences object = 1, s') \<and>
         lookupWaitList s' waitList = Some (object\<lparr>numReferences := numReferences object - 1\<rparr>) \<and>
         addressToWaitListMap s' = addressToWaitListMap s \<and>
         (\<forall>other. other \<noteq> waitList \<longrightarrow>
            lookupWaitList s' other = lookupWaitList s other) \<and>
         signaledEvents s' = signaledEvents s"
    if "lookupWaitList s waitList = Some object" for waitList s object
    by (intro exI [of _ "storeWaitList waitList
          (object\<lparr>numReferences := numReferences object - 1\<rparr>) s"])
      (use closeWaitList_decrement_live [OF that] storeWaitList_effect [OF that] in simp)
  have rechecks: "(numReferences object \<noteq> 0 \<longrightarrow> closeWaitList_recheck address waitList s = Inr s) \<and>
      (numReferences object = 0 \<and> wakeEvents object \<noteq> [] \<longrightarrow>
         closeWaitList_recheck address waitList s = Inl assertionFailure) \<and>
      (numReferences object = 0 \<and> wakeEvents object = [] \<longrightarrow>
         (\<exists>s'. closeWaitList_recheck address waitList s = Inr s' \<and>
            lookupWaitList s' waitList = None \<and>
            addressToWaitListMap s' address = None \<and>
            (\<forall>other. other \<noteq> address \<longrightarrow>
               addressToWaitListMap s' other = addressToWaitListMap s other) \<and>
            (\<forall>other. other \<noteq> waitList \<longrightarrow>
               lookupWaitList s' other = lookupWaitList s other) \<and>
            signaledEvents s' = signaledEvents s))"
    if "lookupWaitList s waitList = Some object" for address waitList s object
  proof (intro conjI impI)
    assume "numReferences object \<noteq> 0"
    then show "closeWaitList_recheck address waitList s = Inr s"
      by (simp add: closeWaitList_recheck_live [OF that])
  next
    assume "numReferences object = 0 \<and> wakeEvents object \<noteq> []"
    then show "closeWaitList_recheck address waitList s = Inl assertionFailure"
      by (simp add: closeWaitList_recheck_live [OF that])
  next
    assume "numReferences object = 0 \<and> wakeEvents object = []"
    then have "closeWaitList_recheck address waitList s =
        Inr ((deleteWaitList waitList s)
               \<lparr>addressToWaitListMap := (addressToWaitListMap s)(address := None)\<rparr>)"
      by (simp add: closeWaitList_recheck_live [OF that])
    then show "\<exists>s'. closeWaitList_recheck address waitList s = Inr s' \<and>
            lookupWaitList s' waitList = None \<and>
            addressToWaitListMap s' address = None \<and>
            (\<forall>other. other \<noteq> address \<longrightarrow>
               addressToWaitListMap s' other = addressToWaitListMap s other) \<and>
            (\<forall>other. other \<noteq> waitList \<longrightarrow>
               lookupWaitList s' other = lookupWaitList s other) \<and>
            signaledEvents s' = signaledEvents s"
      by (intro exI [of _ "(deleteWaitList waitList s)
               \<lparr>addressToWaitListMap := (addressToWaitListMap s)(address := None)\<rparr>"])
        (use erase_effect [where p = waitList and s = s and a = address] in simp)
  qed
  have deleted: "closeWaitList_decrement waitList s = Inl danglingWaitList \<and>
      closeWaitList_recheck address waitList s = Inl danglingWaitList \<and>
      closeWaitList address waitList s = Inl danglingWaitList"
    if "lookupWaitList s waitList = None" for address waitList s
    using that
    by (simp add: closeWaitList_dangling closeWaitList_decrement_def closeWaitList_recheck_def)
  have reached: "(\<forall>address waitList. addressToWaitListMap s address = Some waitList \<longrightarrow>
         (\<exists>object. lookupWaitList s waitList = Some object \<and>
            unat (numReferences object) = holders handles waitList \<and>
            (numReferences object = 0 \<longrightarrow> (address, waitList, Rechecking) \<in> set handles))) \<and>
      (\<forall>waitList. lookupWaitList s waitList \<noteq> None \<longrightarrow>
         (\<exists>address. addressToWaitListMap s address = Some waitList)) \<and>
      (\<forall>action e. perform action (s, handles) = Inl e \<longrightarrow>
         (\<exists>address waitList. action = Rechecks address waitList \<and>
            (address, waitList, Rechecking) \<in> set handles \<and>
            (lookupWaitList s waitList = None \<and> e = danglingWaitList
             \<or> (\<exists>object. lookupWaitList s waitList = Some object \<and>
                  numReferences object = 0 \<and> wakeEvents object \<noteq> [] \<and>
                  e = assertionFailure))))"
    if "run actions (idleRuntime, []) = Inr (s, handles) \<and>
      callersBounded actions (idleRuntime, [])" for actions s handles
  proof -
    have inv: "systemInvariant (s, handles)"
      using that systemInvariant_run [OF invariant_idle] by blast
    show ?thesis
      apply (rule conjI, rule systemInvariant_entries(1) [OF inv])
      apply (rule conjI, rule systemInvariant_entries(2) [OF inv])
      apply (intro allI impI, erule perform_fails [OF inv])
      done
  qed
  show ?thesis
    apply (rule conjI, intro allI, rule opens)
    apply (rule conjI, intro allI impI, erule decrements)
    apply (rule conjI, intro allI impI, erule rechecks)
    apply (rule conjI, intro allI impI, erule closeWaitList_live)
    apply (rule conjI, intro allI impI, erule deleted)
    apply (intro allI impI, erule reached)
    done
qed

text \<open>
  Three callers on the cell at 4096. All three open the wait list; one decrements
  the count to 2 and is done; the second decrements it to 1 and is done; the third
  decrements it to 0, and re-checks: the list is deleted and the entry erased.
  Before the re-check, the entry is in the table with a count of 0 and the third
  caller is the one about to re-check it.
\<close>

lemmas system_defs =
  idleRuntime_def emptiedRuntime_def oneHolder_def afterDecrement_def openWaitList_def
  newWaitList_def closeWaitList_decrement_def closeWaitList_recheck_def lookupWaitList_def
  storeWaitList_def deleteWaitList_def Let_def UINTPTR_MAX_def

lemma run_three_callers:
  "run [Opens 4096, Opens 4096, Opens 4096, Decrements 4096 0, Decrements 4096 0,
        Decrements 4096 0] (idleRuntime, [])
     = Inr (afterDecrement, [(4096, 0, Rechecking)])"
  "callersBounded [Opens 4096, Opens 4096, Opens 4096, Decrements 4096 0, Decrements 4096 0,
        Decrements 4096 0] (idleRuntime, [])"
  "run [Opens 4096, Opens 4096, Opens 4096, Decrements 4096 0, Decrements 4096 0,
        Decrements 4096 0, Rechecks 4096 0] (idleRuntime, [])
     = Inr (emptiedRuntime, [])"
  by (simp_all add: system_defs)

theorem addressTable_reference_counting_witness:
  "run [Opens 4096, Opens 4096, Opens 4096, Decrements 4096 0, Decrements 4096 0,
        Decrements 4096 0] (idleRuntime, [])
     = Inr (afterDecrement, [(4096, 0, Rechecking)]) \<and>
   callersBounded [Opens 4096, Opens 4096, Opens 4096, Decrements 4096 0, Decrements 4096 0,
        Decrements 4096 0] (idleRuntime, []) \<and>
   addressToWaitListMap afterDecrement 4096 = Some 0 \<and>
   (\<exists>object. lookupWaitList afterDecrement 0 = Some object \<and>
      unat (numReferences object) = holders [(4096, 0, Rechecking)] 0) \<and>
   openWaitList 4096 afterDecrement = Inr (0, oneHolder) \<and>
   lookupWaitList oneHolder 0 = Some \<lparr>wakeEvents = [], numReferences = 1\<rparr> \<and>
   closeWaitList_recheck 4096 0 oneHolder = Inr oneHolder \<and>
   closeWaitList_recheck 4096 0 afterDecrement = Inr emptiedRuntime"
proof -
  note t = addressTable_reference_counting
  have entry: "addressToWaitListMap afterDecrement 4096 = Some 0"
    by (simp add: afterDecrement_def)
  have counted: "\<exists>object. lookupWaitList afterDecrement 0 = Some object \<and>
      unat (numReferences object) = holders [(4096, 0, Rechecking)] 0"
    by (rule t [THEN conjunct2, THEN conjunct2, THEN conjunct2, THEN conjunct2, THEN conjunct2,
          THEN spec, THEN spec, THEN spec, THEN mp,
          OF conjI [OF run_three_callers(1) run_three_callers(2)],
          THEN conjunct1, THEN spec, THEN spec, THEN mp, OF entry, THEN exE])
      blast
  have opened: "openWaitList 4096 afterDecrement = Inr (0, oneHolder)"
    by (simp add: system_defs)
  have before: "waitListAt afterDecrement 4096 = Some \<lparr>wakeEvents = [], numReferences = 0\<rparr>"
    by (simp add: waitListAt_def afterDecrement_def lookupWaitList_def)
  have live: "\<not> danglingEntry afterDecrement 4096"
    by (simp add: danglingEntry_def afterDecrement_def lookupWaitList_def)
  have "\<exists>waitList s'. openWaitList 4096 afterDecrement = Inr (waitList, s') \<and>
      lookupWaitList s' waitList =
        Some (case waitListAt afterDecrement 4096 of
                None \<Rightarrow> \<lparr>wakeEvents = [], numReferences = 1\<rparr>
              | Some object \<Rightarrow> object\<lparr>numReferences := numReferences object + 1\<rparr>)"
    using t [THEN conjunct1, THEN spec, THEN spec, THEN conjunct2, THEN mp, OF live]
    by blast
  then have resurrected:
    "lookupWaitList oneHolder 0 = Some \<lparr>wakeEvents = [], numReferences = 1\<rparr>"
    by (simp add: before opened)
  have stays: "closeWaitList_recheck 4096 0 oneHolder = Inr oneHolder"
    by (simp add: system_defs)
  have erased: "closeWaitList_recheck 4096 0 afterDecrement = Inr emptiedRuntime"
    by (simp add: system_defs)
  show ?thesis
    using counted opened resurrected stays erased run_three_callers entry
    by simp
qed

text \<open>
  C5 as stated fails in two ways. Between line 68 and line 70 of the \<open>closeWaitList\<close>
  of the last holder, the list is in the table with a reference count of 0. And
  when, in that state, a second caller opens the list (the count is 1 again),
  closes it (the count is 0 again) and re-checks before the first caller does, the
  second caller deletes the list and erases the entry, which does not stay; the
  re-check of the first caller then reads the count of the deleted list.
\<close>

theorem addressTable_counterexample:
  "run [Opens 4096, Decrements 4096 0] (idleRuntime, [])
     = Inr (afterDecrement, [(4096, 0, Rechecking)]) \<and>
   waitListAt afterDecrement 4096 = Some \<lparr>wakeEvents = [], numReferences = 0\<rparr> \<and>
   run [Opens 4096, Decrements 4096 0, Opens 4096, Decrements 4096 0, Rechecks 4096 0]
       (idleRuntime, [])
     = Inr (emptiedRuntime, [(4096, 0, Rechecking)]) \<and>
   addressToWaitListMap emptiedRuntime 4096 = None \<and>
   run [Opens 4096, Decrements 4096 0, Opens 4096, Decrements 4096 0, Rechecks 4096 0,
        Rechecks 4096 0] (idleRuntime, [])
     = Inl danglingWaitList"
  by (simp add: system_defs waitListAt_def)

subsection \<open>getEndTimeFromTimeout\<close>

text \<open>
  Three roundings: of the product \<open>18446744073709552 * 1000\<close>, of the constant
  \<open>UINT64_MAX - 1\<close>, and of \<open>18446744073709552\<close> itself, which is a double.
\<close>

lemma ilog2_product: "ilog2 18446744073709552000 = 64"
  by code_simp

lemma roundHalfEven_product: "roundHalfEven (18446744073709552000 / pow2 12) = 4503599627370496"
  by code_simp

lemma f64_round_product: "f64_round 18446744073709552000 = Finite 18446744073709551616"
  by (simp add: f64_round_def Let_def ilog2_product roundHalfEven_product) (simp add: pow2_def)

lemma ilog2_bound: "ilog2 18446744073709551614 = 63"
  by code_simp

lemma roundHalfEven_bound: "roundHalfEven (18446744073709551614 / pow2 11) = 9007199254740992"
  by code_simp

lemma f64_round_bound: "f64_round 18446744073709551614 = Finite 18446744073709551616"
  by (simp add: f64_round_def Let_def ilog2_bound roundHalfEven_bound) (simp add: pow2_def)

lemma F64_of_U64_bound: "F64_of_U64 (UINT64_MAX - 1) = Finite 18446744073709551616"
  by (simp add: F64_of_U64_def UINT64_MAX_def f64_round_bound)

lemma ilog2_input: "ilog2 18446744073709552 = 54"
  by code_simp

lemma roundHalfEven_input: "roundHalfEven (18446744073709552 / pow2 2) = 4611686018427388"
  by code_simp

lemma f64_round_input: "f64_round 18446744073709552 = Finite 18446744073709552"
  by (simp add: f64_round_def Let_def ilog2_input roundHalfEven_input) (simp add: pow2_def)

text \<open>
  C3. For the timeout \<open>18446744073709552.0\<close> the product with \<open>1000.0\<close> is exactly
  \<open>2^64\<close>. The bound \<open>F64(UINT64_MAX - 1)\<close> is \<open>2^64\<close> as well, so the comparison
  succeeds and the code converts \<open>2^64\<close> to a \<open>U64\<close>, which it does not fit; the
  claim has \<open>UINT64_MAX\<close> returned for every product above \<open>UINT64_MAX - 1\<close>.
\<close>

theorem getEndTimeFromTimeout_at_2_64:
  "f64_mul (Finite 18446744073709552) (Finite 1000) = Finite (2 ^ 64) \<and>
   getEndTimeFromTimeout startTime (Finite 18446744073709552) = Inl conversionOutOfRange"
  by (simp add: getEndTimeFromTimeout_def f64_round_product F64_of_U64_bound)

text \<open>
  The result for every timeout, by the product \<open>q\<close>. No double lies strictly between
  \<open>UINT64_MAX - 1\<close> and \<open>2^64\<close>, so \<open>2^64\<close> is the one product on which the result
  is not the claimed one.
\<close>

lemma getEndTimeFromTimeout_cases:
  "getEndTimeFromTimeout startTime timeout =
     (case f64_mul timeout (Finite 1000) of
        NaN \<Rightarrow> Inr UINT64_MAX
      | Infinity negative \<Rightarrow> Inr UINT64_MAX
      | Finite q \<Rightarrow>
          if q \<le> 0 then Inr startTime
          else if q < 2 ^ 64
          then (if startTime \<le> startTime + of_int \<lfloor>q\<rfloor> then Inr (startTime + of_int \<lfloor>q\<rfloor>)
                else Inl fatalError)
          else if q = 2 ^ 64 then Inl conversionOutOfRange
          else Inr UINT64_MAX)"
  by (auto simp: getEndTimeFromTimeout_def F64_of_U64_bound Let_def truncateTowardZero_def
      split: F64.splits)

section \<open>Properties of module emission\<close>

subsection \<open>Loops\<close>

lemma forLoop_0 [simp]: "forLoop 0 body s = Inr s"
  by (simp add: forLoop_def)

lemma forLoop_Suc:
  "forLoop (Suc n) body s = (case forLoop n body s of Inl e \<Rightarrow> Inl e | Inr s' \<Rightarrow> body n s')"
  by (simp add: forLoop_def)

lemma forLoop_induct:
  assumes "forLoop n body s = Inr s'"
    and "P 0 s"
    and "\<And>i t t'. i < n \<Longrightarrow> P i t \<Longrightarrow> body i t = Inr t' \<Longrightarrow> P (Suc i) t'"
  shows "P n s'"
  using assms
proof (induction n arbitrary: s')
  case 0
  then show ?case by simp
next
  case (Suc n)
  from Suc.prems(1) obtain t where t: "forLoop n body s = Inr t" and step: "body n t = Inr s'"
    by (auto simp: forLoop_Suc split: sum.splits)
  have "P n t"
    using t Suc.prems(2) Suc.prems(3) by (rule Suc.IH) simp_all
  then show ?case
    using step Suc.prems(3) [of n t s'] by simp
qed

lemma forLoop_total:
  assumes "P 0 s"
    and "\<And>i t. i < n \<Longrightarrow> P i t \<Longrightarrow> \<exists>t'. body i t = Inr t' \<and> P (Suc i) t'"
  shows "\<exists>s'. forLoop n body s = Inr s' \<and> P n s'"
  using assms
proof (induction n)
  case 0
  then show ?case by simp
next
  case (Suc n)
  have "\<exists>t. forLoop n body s = Inr t \<and> P n t"
    using Suc.prems by (intro Suc.IH) simp_all
  then obtain t where t: "forLoop n body s = Inr t" and "P n t" by blast
  then obtain t' where "body n t = Inr t'" and "P (Suc n) t'"
    using Suc.prems(2) [of n t] by auto
  then show ?case
    using t by (simp add: forLoop_Suc)
qed

lemma fold_upt_induct:
  assumes "P 0 s" and "\<And>i t. i < n \<Longrightarrow> P i t \<Longrightarrow> P (Suc i) (f i t)"
  shows "P n (fold f [0..<n] s)"
  using assms by (induction n) simp_all

subsection \<open>The external globals\<close>

lemma fold_moduleFunctions:
  "(\<And>x c. moduleFunctions (llvmModule (f x c)) = moduleFunctions (llvmModule c)) \<Longrightarrow>
   moduleFunctions (llvmModule (fold f xs c)) = moduleFunctions (llvmModule c)"
  by (induction xs arbitrary: c) simp_all

lemma fold_typeIds:
  "(\<And>x c. typeIds (f x c) = typeIds c) \<Longrightarrow> typeIds (fold f xs c) = typeIds c"
  by (induction xs arbitrary: c) simp_all

lemma fold_cxaBeginCatchFunction:
  "(\<And>x c. cxaBeginCatchFunction (f x c) = cxaBeginCatchFunction c) \<Longrightarrow>
   cxaBeginCatchFunction (fold f xs c) = cxaBeginCatchFunction c"
  by (induction xs arbitrary: c) simp_all

lemma import_simps [simp]:
  "moduleFunctions (llvmModule (importTypeId i c)) = moduleFunctions (llvmModule c)"
  "moduleFunctions (llvmModule (importTableOffset i c)) = moduleFunctions (llvmModule c)"
  "moduleFunctions (llvmModule (importMemoryOffset i c)) = moduleFunctions (llvmModule c)"
  "moduleFunctions (llvmModule (importGlobal i c)) = moduleFunctions (llvmModule c)"
  "moduleFunctions (llvmModule (importExceptionType i c)) = moduleFunctions (llvmModule c)"
  "typeIds (importTypeId i c)
     = typeIds c @ [PtrToInt (GlobalVariable (getExternalName ''typeId'' i)) iptrType]"
  "typeIds (importTableOffset i c) = typeIds c"
  "typeIds (importMemoryOffset i c) = typeIds c"
  "typeIds (importGlobal i c) = typeIds c"
  "typeIds (importExceptionType i c) = typeIds c"
  "cxaBeginCatchFunction (importTypeId i c) = cxaBeginCatchFunction c"
  "cxaBeginCatchFunction (importTableOffset i c) = cxaBeginCatchFunction c"
  "cxaBeginCatchFunction (importMemoryOffset i c) = cxaBeginCatchFunction c"
  "cxaBeginCatchFunction (importGlobal i c) = cxaBeginCatchFunction c"
  "cxaBeginCatchFunction (importExceptionType i c) = cxaBeginCatchFunction c"
  by (simp_all add: importTypeId_def importTableOffset_def importMemoryOffset_def
      importGlobal_def importExceptionType_def createImportedConstant_def Let_def)

lemma default_offsets_simps [simp]:
  "moduleFunctions (llvmModule (if b then c\<lparr>defaultTableOffset := x\<rparr> else c))
     = moduleFunctions (llvmModule c)"
  "typeIds (if b then c\<lparr>defaultTableOffset := x\<rparr> else c) = typeIds c"
  "cxaBeginCatchFunction (if b then c\<lparr>defaultTableOffset := x\<rparr> else c)
     = cxaBeginCatchFunction c"
  "moduleFunctions (llvmModule (if b then c\<lparr>defaultMemoryOffset := x\<rparr> else c))
     = moduleFunctions (llvmModule c)"
  "typeIds (if b then c\<lparr>defaultMemoryOffset := x\<rparr> else c) = typeIds c"
  "cxaBeginCatchFunction (if b then c\<lparr>defaultMemoryOffset := x\<rparr> else c)
     = cxaBeginCatchFunction c"
  by simp_all

lemma fold_importTypeId:
  "typeIds (fold importTypeId [0..<n] c)
   = typeIds c @ map (\<lambda>i. PtrToInt (GlobalVariable (getExternalName ''typeId'' i)) iptrType) [0..<n]"
  by (induction n) simp_all

lemma emitModule_externals_functions:
  "moduleFunctions (llvmModule (snd (emitModule_externals w seh ir M))) =
     moduleFunctions M @
     (if seh then []
      else [\<lparr>functionName = ''__cxa_begin_catch'',
             functionType = FunctionType_get i8PtrType [i8PtrType], callingConv = CallingConv_C,
             personalityFn = None, prefixData = None, loweredFrom = None\<rparr>]) @
     [\<lparr>functionName = (if w then ''__C_specific_handler'' else ''__gxx_personality_v0''),
       functionType = FunctionType_get i32Type [], callingConv = CallingConv_C,
       personalityFn = None, prefixData = None, loweredFrom = None\<rparr>]"
  by (simp add: emitModule_externals_def Let_def split_def createImportedConstant_def
      fold_moduleFunctions newEmitModuleContext_def Function_Create_def)

lemma emitModule_externals_personality:
  "fst (emitModule_externals w seh ir M) = length (moduleFunctions M) + (if seh then 0 else 1)"
  by (simp add: emitModule_externals_def Let_def split_def newEmitModuleContext_def
      Function_Create_def)

lemma emitModule_externals_typeIds:
  "typeIds (snd (emitModule_externals w seh ir M)) =
     map (\<lambda>i. PtrToInt (GlobalVariable (getExternalName ''typeId'' i)) iptrType)
       [0..<length (types ir)]"
  by (simp add: emitModule_externals_def Let_def split_def fold_typeIds fold_importTypeId
      newEmitModuleContext_def)

lemma emitModule_externals_cxa:
  "cxaBeginCatchFunction (snd (emitModule_externals w seh ir M)) =
     (if seh then None else Some (length (moduleFunctions M)))"
  by (simp add: emitModule_externals_def Let_def split_def fold_cxaBeginCatchFunction
      newEmitModuleContext_def Function_Create_def)

subsection \<open>The two loops over the functions\<close>

lemma updateFunction_simps [simp]:
  "moduleFunctions (updateFunction h g m) = (moduleFunctions m)[h := g (moduleFunctions m ! h)]"
  "moduleGlobals (updateFunction h g m) = moduleGlobals m"
  by (simp_all add: updateFunction_def)

lemma createImportedConstant_simps [simp]:
  "fst (createImportedConstant m name) = GlobalVariable name"
  "moduleFunctions (snd (createImportedConstant m name)) = moduleFunctions m"
  "moduleGlobals (snd (createImportedConstant m name)) = moduleGlobals m @
     [\<lparr>globalName = name, valueType = i8Type, isConstant = False, hasInitializer = False\<rparr>]"
  by (simp_all add: createImportedConstant_def)

lemma Function_Create_simps [simp]:
  "fst (Function_Create ty name m) = length (moduleFunctions m)"
  "moduleFunctions (snd (Function_Create ty name m)) = moduleFunctions m @
     [\<lparr>functionName = name, functionType = ty, callingConv = CallingConv_C, personalityFn = None,
       prefixData = None, loweredFrom = None\<rparr>]"
  "moduleGlobals (snd (Function_Create ty name m)) = moduleGlobals m"
  by (simp_all add: Function_Create_def)

lemma createFunctionShell_result:
  assumes "createFunctionShell ir i c = Inr c'"
  shows "\<exists>index shell. functions_getType ir i = Inr index \<and> index < length (types ir) \<and>
      functionName shell = shellName ir i \<and>
      moduleFunctions (llvmModule c') = moduleFunctions (llvmModule c) @ [shell] \<and>
      moduleGlobals (llvmModule c') = moduleGlobals (llvmModule c) \<and>
      functionHandles c' = (functionHandles c)[i := Some (length (moduleFunctions (llvmModule c)))] \<and>
      typeIds c' = typeIds c \<and> cxaBeginCatchFunction c' = cxaBeginCatchFunction c"
  using assms
  by (auto simp: createFunctionShell_def Let_def split_def shellName_def
      split: sum.splits if_splits)

lemma compileFunctionDef_result:
  assumes "compileFunctionDef ir p j c = Inr c'"
  shows "\<exists>h. functionHandles c ! (length (functionImports ir) + j) = Some h \<and>
      type_index (functionDefs ir ! j) < length (typeIds c) \<and>
      moduleFunctions (llvmModule c') = (moduleFunctions (llvmModule c))
        [h := (moduleFunctions (llvmModule c) ! h)
            \<lparr>personalityFn := Some p, prefixData := Some (prefixOf ir c j),
             loweredFrom := Some (functionDefs ir ! j)\<rparr>] \<and>
      moduleGlobals (llvmModule c') = moduleGlobals (llvmModule c) @
        [\<lparr>globalName = getExternalName ''functionDefInstance'' j, valueType = i8Type,
          isConstant = False, hasInitializer = False\<rparr>] \<and>
      functionHandles c' = functionHandles c \<and>
      typeIds c' = typeIds c \<and> cxaBeginCatchFunction c' = cxaBeginCatchFunction c"
proof -
  from assms obtain h where
    h: "functionHandles c ! (length (functionImports ir) + j) = Some h"
    and ty: "type_index (functionDefs ir ! j) < length (typeIds c)"
    by (auto simp: compileFunctionDef_def Let_def split_def split: option.splits if_splits)
  show ?thesis
  proof (cases "h < length (moduleFunctions (llvmModule c))")
    case True
    then show ?thesis
      using assms h ty
      by (auto simp: compileFunctionDef_def Let_def split_def prefixOf_def)
  next
    case False
    then show ?thesis
      using assms h ty
      by (auto simp: compileFunctionDef_def Let_def split_def prefixOf_def list_update_beyond)
  qed
qed

lemma shellsCreated_step:
  assumes "shellsCreated ir c0 i c" and "createFunctionShell ir i c = Inr c'"
    and "i < length (functionHandles c0)"
  shows "shellsCreated ir c0 (Suc i) c'"
proof -
  from createFunctionShell_result [OF assms(2)] obtain index shell where
    r: "functions_getType ir i = Inr index" "index < length (types ir)"
      "functionName shell = shellName ir i"
      "moduleFunctions (llvmModule c') = moduleFunctions (llvmModule c) @ [shell]"
      "moduleGlobals (llvmModule c') = moduleGlobals (llvmModule c)"
      "functionHandles c' = (functionHandles c)[i := Some (length (moduleFunctions (llvmModule c)))]"
      "typeIds c' = typeIds c" "cxaBeginCatchFunction c' = cxaBeginCatchFunction c"
    by blast
  show ?thesis
    using assms(1,3) r
    by (auto simp: shellsCreated_def nth_append less_Suc_eq nth_list_update)
qed

lemma shellsCreated_loop:
  assumes "forLoop n (createFunctionShell ir) c0 = Inr c" and "n \<le> length (functionHandles c0)"
  shows "shellsCreated ir c0 n c"
  using assms(1)
proof (rule forLoop_induct)
  show "shellsCreated ir c0 0 c0"
    by (simp add: shellsCreated_def)
next
  fix i t t'
  assume "i < n" "shellsCreated ir c0 i t" "createFunctionShell ir i t = Inr t'"
  then show "shellsCreated ir c0 (Suc i) t'"
    using assms(2) by (intro shellsCreated_step) simp_all
qed

lemma defsCompiled_step:
  assumes inv: "defsCompiled ir p firstDef c0 j c"
    and step: "compileFunctionDef ir p j c = Inr c'"
    and handle: "functionHandles c0 ! (length (functionImports ir) + j) = Some (firstDef + j)"
    and inside: "firstDef + j < length (moduleFunctions (llvmModule c0))"
  shows "defsCompiled ir p firstDef c0 (Suc j) c'"
proof -
  from compileFunctionDef_result [OF step] obtain h where
    r: "functionHandles c ! (length (functionImports ir) + j) = Some h"
      "type_index (functionDefs ir ! j) < length (typeIds c)"
      "moduleFunctions (llvmModule c') = (moduleFunctions (llvmModule c))
        [h := (moduleFunctions (llvmModule c) ! h)
            \<lparr>personalityFn := Some p, prefixData := Some (prefixOf ir c j),
             loweredFrom := Some (functionDefs ir ! j)\<rparr>]"
      "moduleGlobals (llvmModule c') = moduleGlobals (llvmModule c) @
        [\<lparr>globalName = getExternalName ''functionDefInstance'' j, valueType = i8Type,
          isConstant = False, hasInitializer = False\<rparr>]"
      "functionHandles c' = functionHandles c"
      "typeIds c' = typeIds c" "cxaBeginCatchFunction c' = cxaBeginCatchFunction c"
    by blast
  have h: "h = firstDef + j"
    using r(1) handle inv by (simp add: defsCompiled_def)
  have same: "prefixOf ir c j = prefixOf ir c0 j"
    using inv by (simp add: prefixOf_def defsCompiled_def)
  have len: "firstDef + j < length (moduleFunctions (llvmModule c))"
    using inside inv by (simp add: defsCompiled_def)
  show ?thesis
    unfolding defsCompiled_def
  proof (intro conjI allI impI)
    show "length (moduleFunctions (llvmModule c')) = length (moduleFunctions (llvmModule c0))"
      using inv r(3) by (simp add: defsCompiled_def)
    show "map functionName (moduleFunctions (llvmModule c'))
       = map functionName (moduleFunctions (llvmModule c0))"
      using inv r(3) len h by (simp add: defsCompiled_def map_update list_update_same_conv)
    show "functionHandles c' = functionHandles c0" "typeIds c' = typeIds c0"
      "cxaBeginCatchFunction c' = cxaBeginCatchFunction c0"
      using inv r by (simp_all add: defsCompiled_def)
    show "set (moduleGlobals (llvmModule c0)) \<subseteq> set (moduleGlobals (llvmModule c'))"
      using inv r(4) by (auto simp: defsCompiled_def)
  next
    fix h'
    assume "h' < firstDef \<or> firstDef + Suc j \<le> h'"
    then show "moduleFunctions (llvmModule c') ! h' = moduleFunctions (llvmModule c0) ! h'"
      using inv r(3) h by (auto simp: defsCompiled_def)
  next
    fix k
    assume k: "k < Suc j"
    show "type_index (functionDefs ir ! k) < length (typeIds c0)"
      using k inv r(2) by (auto simp: defsCompiled_def less_Suc_eq)
    show "\<lparr>globalName = getExternalName ''functionDefInstance'' k, valueType = i8Type,
          isConstant = False, hasInitializer = False\<rparr> \<in> set (moduleGlobals (llvmModule c'))"
      using k inv r(4) by (auto simp: defsCompiled_def less_Suc_eq)
    show "personalityFn (moduleFunctions (llvmModule c') ! (firstDef + k)) = Some p"
      using k inv r(3) h len by (auto simp: defsCompiled_def less_Suc_eq nth_list_update)
    show "prefixData (moduleFunctions (llvmModule c') ! (firstDef + k)) = Some (prefixOf ir c0 k)"
      using k inv r(3) h len same by (auto simp: defsCompiled_def less_Suc_eq nth_list_update)
  qed
qed

lemma defsCompiled_loop:
  assumes "forLoop n (compileFunctionDef ir p) c0 = Inr c"
    and "\<forall>k < n. functionHandles c0 ! (length (functionImports ir) + k) = Some (firstDef + k)"
    and "firstDef + n \<le> length (moduleFunctions (llvmModule c0))"
  shows "defsCompiled ir p firstDef c0 n c"
  using assms(1)
proof (rule forLoop_induct)
  show "defsCompiled ir p firstDef c0 0 c0"
    by (simp add: defsCompiled_def)
next
  fix j t t'
  assume "j < n" "defsCompiled ir p firstDef c0 j t" "compileFunctionDef ir p j t = Inr t'"
  then show "defsCompiled ir p firstDef c0 (Suc j) t'"
    using assms(2,3) by (intro defsCompiled_step) simp_all
qed

subsection \<open>The emitted module\<close>

lemma emitModule_stages:
  assumes "emitModule w seh ir M = Inr (p, c)"
  obtains c0 c1 where
    "p = length (moduleFunctions M) + (if seh then 0 else 1)"
    "moduleFunctions (llvmModule c0) =
       moduleFunctions M @ (if seh then [] else [cxaBeginCatch]) @ [personality w]"
    "typeIds c0 = map (\<lambda>i. PtrToInt (GlobalVariable (getExternalName ''typeId'' i)) iptrType)
       [0..<length (types ir)]"
    "cxaBeginCatchFunction c0 = (if seh then None else Some (length (moduleFunctions M)))"
    "shellsCreated ir c0 (functions_size ir) c1"
    "defsCompiled ir p (Suc p + length (functionImports ir)) c1 (length (functionDefs ir)) c"
proof -
  define c0 where "c0 = (snd (emitModule_externals w seh ir M))
    \<lparr>functionHandles := replicate (functions_size ir) None\<rparr>"
  from assms obtain c1 where
    p: "p = fst (emitModule_externals w seh ir M)"
    and shells: "forLoop (functions_size ir) (createFunctionShell ir) c0 = Inr c1"
    and defs: "forLoop (length (functionDefs ir)) (compileFunctionDef ir p) c1 = Inr c"
    by (auto simp: emitModule_def Let_def split_def c0_def split: sum.splits)
  have p': "p = length (moduleFunctions M) + (if seh then 0 else 1)"
    by (simp add: p emitModule_externals_personality)
  have f0: "moduleFunctions (llvmModule c0) =
       moduleFunctions M @ (if seh then [] else [cxaBeginCatch]) @ [personality w]"
    by (simp add: c0_def emitModule_externals_functions cxaBeginCatch_def personality_def)
  have t0: "typeIds c0 = map (\<lambda>i. PtrToInt (GlobalVariable (getExternalName ''typeId'' i)) iptrType)
       [0..<length (types ir)]"
    by (simp add: c0_def emitModule_externals_typeIds)
  have x0: "cxaBeginCatchFunction c0 = (if seh then None else Some (length (moduleFunctions M)))"
    by (simp add: c0_def emitModule_externals_cxa)
  have s1: "shellsCreated ir c0 (functions_size ir) c1"
    using shells by (rule shellsCreated_loop) (simp add: c0_def)
  have base: "length (moduleFunctions (llvmModule c0)) = Suc p"
    by (simp add: f0 p')
  have d: "defsCompiled ir p (Suc p + length (functionImports ir)) c1 (length (functionDefs ir)) c"
    using defs
  proof (rule defsCompiled_loop)
    show "\<forall>k<length (functionDefs ir).
       functionHandles c1 ! (length (functionImports ir) + k)
         = Some (Suc p + length (functionImports ir) + k)"
      using s1 base by (simp add: shellsCreated_def functions_size_def add.assoc)
    show "Suc p + length (functionImports ir) + length (functionDefs ir)
       \<le> length (moduleFunctions (llvmModule c1))"
      using s1 base by (simp add: shellsCreated_def functions_size_def)
  qed
  show thesis
    using p' f0 t0 x0 s1 d by (rule that)
qed

lemma getExternalName_not_cxa:
  "getExternalName ''functionDef'' i \<noteq> ''__cxa_begin_catch''"
  "getExternalName ''functionImport'' i \<noteq> ''__cxa_begin_catch''"
  by (simp_all add: getExternalName_def)

lemma shellName_not_cxa: "shellName ir k \<noteq> ''__cxa_begin_catch''"
  by (simp add: shellName_def getExternalName_not_cxa)

text \<open>
  C6. When \<open>emitModule\<close> completes, the function of every definition \<open>j\<close>, the one
  named \<open>functionDef<j>\<close> that the context holds at index \<open>imports.size() + j\<close>, has as
  prefix data exactly the array of two machine-word integers whose first element is
  the pointer-to-integer cast of the external global \<open>functionDefInstance<j>\<close>, which
  the module declares, and whose second element is \<open>typeIds[def.type.index]\<close>, itself
  the cast of the external global \<open>typeId<def.type.index>\<close>; and the personality
  function created by \<open>emitModule\<close> is attached to it.
\<close>

theorem emitModule_prefixData:
  assumes "emitModule WIN32 USE_WINDOWS_SEH irModule outLLVMModule
      = Inr (personalityFunction, moduleContext)"
    and "j < length (functionDefs irModule)"
  shows "\<exists>fn.
    functionHandles moduleContext ! (length (functionImports irModule) + j) = Some fn \<and>
    fn < length (moduleFunctions (llvmModule moduleContext)) \<and>
    functionName (moduleFunctions (llvmModule moduleContext) ! fn)
      = getExternalName ''functionDef'' j \<and>
    prefixData (moduleFunctions (llvmModule moduleContext) ! fn)
      = Some (ConstantArray (ArrayType_get iptrType 2)
          [PtrToInt (GlobalVariable (getExternalName ''functionDefInstance'' j)) iptrType,
           typeIds moduleContext ! type_index (functionDefs irModule ! j)]) \<and>
    \<lparr>globalName = getExternalName ''functionDefInstance'' j, valueType = i8Type,
      isConstant = False, hasInitializer = False\<rparr>
      \<in> set (moduleGlobals (llvmModule moduleContext)) \<and>
    type_index (functionDefs irModule ! j) < length (typeIds moduleContext) \<and>
    typeIds moduleContext ! type_index (functionDefs irModule ! j)
      = PtrToInt (GlobalVariable
          (getExternalName ''typeId'' (type_index (functionDefs irModule ! j)))) iptrType \<and>
    personalityFn (moduleFunctions (llvmModule moduleContext) ! fn)
      = Some personalityFunction \<and>
    personalityFunction < length (moduleFunctions (llvmModule moduleContext)) \<and>
    moduleFunctions (llvmModule moduleContext) ! personalityFunction = personality WIN32"
proof -
  from assms(1) obtain c0 c1 where
    p: "personalityFunction = length (moduleFunctions outLLVMModule) + (if USE_WINDOWS_SEH then 0 else 1)"
    and f0: "moduleFunctions (llvmModule c0) =
       moduleFunctions outLLVMModule @ (if USE_WINDOWS_SEH then [] else [cxaBeginCatch])
         @ [personality WIN32]"
    and t0: "typeIds c0 = map (\<lambda>i. PtrToInt (GlobalVariable (getExternalName ''typeId'' i)) iptrType)
       [0..<length (types irModule)]"
    and s1: "shellsCreated irModule c0 (functions_size irModule) c1"
    and d: "defsCompiled irModule personalityFunction
       (Suc personalityFunction + length (functionImports irModule)) c1
       (length (functionDefs irModule)) moduleContext"
    by (rule emitModule_stages)
  define I where "I = length (functionImports irModule)"
  define fn where "fn = Suc personalityFunction + I + j"
  have base: "length (moduleFunctions (llvmModule c0)) = Suc personalityFunction"
    by (simp add: f0 p)
  have inRange: "I + j < functions_size irModule"
    using assms(2) by (simp add: functions_size_def I_def)
  have len1: "length (moduleFunctions (llvmModule c1)) = Suc personalityFunction + functions_size irModule"
    using s1 base by (simp add: shellsCreated_def)
  have len: "length (moduleFunctions (llvmModule moduleContext))
      = Suc personalityFunction + functions_size irModule"
    using d len1 by (simp add: defsCompiled_def)
  have handle: "functionHandles moduleContext ! (I + j) = Some fn"
    using s1 d inRange base by (simp add: shellsCreated_def defsCompiled_def fn_def I_def)
  have inside: "fn < length (moduleFunctions (llvmModule moduleContext))"
    using len inRange by (simp add: fn_def)
  have "functionName (moduleFunctions (llvmModule c1) ! fn) = shellName irModule (I + j)"
    using s1 inRange base by (simp add: shellsCreated_def fn_def add.assoc)
  moreover have "functionName (moduleFunctions (llvmModule moduleContext) ! fn)
      = map functionName (moduleFunctions (llvmModule moduleContext)) ! fn"
    using inside by simp
  moreover have "map functionName (moduleFunctions (llvmModule c1)) ! fn
      = functionName (moduleFunctions (llvmModule c1) ! fn)"
    using inside len len1 by simp
  ultimately have name: "functionName (moduleFunctions (llvmModule moduleContext) ! fn)
      = getExternalName ''functionDef'' j"
    using d by (simp add: defsCompiled_def shellName_def I_def)
  have types: "typeIds moduleContext = typeIds c0"
    using s1 d by (simp add: shellsCreated_def defsCompiled_def)
  have compiled: "type_index (functionDefs irModule ! j) < length (typeIds c1)"
    "\<lparr>globalName = getExternalName ''functionDefInstance'' j, valueType = i8Type,
      isConstant = False, hasInitializer = False\<rparr>
      \<in> set (moduleGlobals (llvmModule moduleContext))"
    "personalityFn (moduleFunctions (llvmModule moduleContext) ! fn)
      = Some personalityFunction"
    "prefixData (moduleFunctions (llvmModule moduleContext) ! fn)
      = Some (prefixOf irModule c1 j)"
    using d assms(2) by (simp_all add: defsCompiled_def fn_def I_def)
  have types1: "typeIds c1 = typeIds c0"
    using s1 by (simp add: shellsCreated_def)
  have typeId: "typeIds moduleContext ! type_index (functionDefs irModule ! j)
      = PtrToInt (GlobalVariable
          (getExternalName ''typeId'' (type_index (functionDefs irModule ! j)))) iptrType"
    using compiled(1) by (simp add: types types1 t0)
  have "moduleFunctions (llvmModule moduleContext) ! personalityFunction
      = moduleFunctions (llvmModule c1) ! personalityFunction"
    using d by (simp add: defsCompiled_def)
  also have "\<dots> = take (length (moduleFunctions (llvmModule c0)))
      (moduleFunctions (llvmModule c1)) ! personalityFunction"
    by (simp add: base)
  also have "\<dots> = personality WIN32"
    using s1 by (simp add: shellsCreated_def f0 p nth_append)
  finally have pers: "moduleFunctions (llvmModule moduleContext) ! personalityFunction
      = personality WIN32" .
  show ?thesis
    using handle inside name compiled typeId pers len
    by (intro exI [of _ fn]) (simp add: I_def prefixOf_def types types1)
qed

text \<open>
  C7. When \<open>emitModule\<close> completes on a module that did not declare
  \<open>__cxa_begin_catch\<close> before: the personality function is the declaration of type
  \<open>() \<rightarrow> i32\<close> named \<open>__C_specific_handler\<close> where \<open>_WIN32\<close> is defined (the targets
  with Windows SEH) and \<open>__gxx_personality_v0\<close> elsewhere; a function named
  \<open>__cxa_begin_catch\<close> is in the module exactly when \<open>USE_WINDOWS_SEH\<close> is false, and
  then it is the declaration of type \<open>i8* \<rightarrow> i8*\<close> that the constructor of the
  context created and stored in \<open>cxaBeginCatchFunction\<close>, before the personality
  function and before every function of the module, which all come after the
  personality function.
\<close>

theorem emitModule_exception_symbols:
  assumes "emitModule WIN32 USE_WINDOWS_SEH irModule outLLVMModule
      = Inr (personalityFunction, moduleContext)"
    and "''__cxa_begin_catch'' \<notin> functionName ` set (moduleFunctions outLLVMModule)"
  shows "personalityFunction < length (moduleFunctions (llvmModule moduleContext)) \<and>
    moduleFunctions (llvmModule moduleContext) ! personalityFunction = personality WIN32 \<and>
    ((\<exists>f \<in> set (moduleFunctions (llvmModule moduleContext)).
        functionName f = ''__cxa_begin_catch'') \<longleftrightarrow> \<not> USE_WINDOWS_SEH) \<and>
    (\<not> USE_WINDOWS_SEH \<longrightarrow>
       cxaBeginCatchFunction moduleContext = Some (length (moduleFunctions outLLVMModule)) \<and>
       moduleFunctions (llvmModule moduleContext) ! length (moduleFunctions outLLVMModule)
         = cxaBeginCatch \<and>
       length (moduleFunctions outLLVMModule) < personalityFunction) \<and>
    (USE_WINDOWS_SEH \<longrightarrow> cxaBeginCatchFunction moduleContext = None) \<and>
    (\<forall>k < functions_size irModule.
       functionHandles moduleContext ! k = Some (Suc personalityFunction + k))"
proof -
  let ?F = "moduleFunctions (llvmModule moduleContext)"
  let ?B = "length (moduleFunctions outLLVMModule)"
  from assms(1) obtain c0 c1 where
    p: "personalityFunction = ?B + (if USE_WINDOWS_SEH then 0 else 1)"
    and f0: "moduleFunctions (llvmModule c0) =
       moduleFunctions outLLVMModule @ (if USE_WINDOWS_SEH then [] else [cxaBeginCatch])
         @ [personality WIN32]"
    and x0: "cxaBeginCatchFunction c0 = (if USE_WINDOWS_SEH then None else Some ?B)"
    and s1: "shellsCreated irModule c0 (functions_size irModule) c1"
    and d: "defsCompiled irModule personalityFunction
       (Suc personalityFunction + length (functionImports irModule)) c1
       (length (functionDefs irModule)) moduleContext"
    by (rule emitModule_stages)
  have base: "length (moduleFunctions (llvmModule c0)) = Suc personalityFunction"
    by (simp add: f0 p)
  have len1: "length (moduleFunctions (llvmModule c1)) = Suc personalityFunction + functions_size irModule"
    using s1 base by (simp add: shellsCreated_def)
  have len: "length ?F = Suc personalityFunction + functions_size irModule"
    using d len1 by (simp add: defsCompiled_def)
  have early: "?F ! h = moduleFunctions (llvmModule c0) ! h" if "h \<le> personalityFunction" for h
  proof -
    have "?F ! h = moduleFunctions (llvmModule c1) ! h"
      using d that by (simp add: defsCompiled_def)
    also have "\<dots> = take (length (moduleFunctions (llvmModule c0)))
        (moduleFunctions (llvmModule c1)) ! h"
      using that by (simp add: base)
    also have "\<dots> = moduleFunctions (llvmModule c0) ! h"
      using s1 by (simp add: shellsCreated_def)
    finally show ?thesis .
  qed
  have pers: "?F ! personalityFunction = personality WIN32"
    by (simp add: early f0 p nth_append)
  have cxa: "?F ! ?B = cxaBeginCatch" if "\<not> USE_WINDOWS_SEH"
    using that by (simp add: early f0 p nth_append)
  have names: "functionName (?F ! h) = functionName (moduleFunctions (llvmModule c1) ! h)"
    if "h < length ?F" for h
  proof -
    have "functionName (?F ! h) = map functionName ?F ! h"
      using that by simp
    also have "\<dots> = map functionName (moduleFunctions (llvmModule c1)) ! h"
      using d by (simp add: defsCompiled_def)
    also have "\<dots> = functionName (moduleFunctions (llvmModule c1) ! h)"
      using that len len1 by simp
    finally show ?thesis .
  qed
  have late: "functionName (?F ! h) \<noteq> ''__cxa_begin_catch''"
    if "personalityFunction \<le> h" "h < length ?F" for h
  proof (cases "h = personalityFunction")
    case True
    then show ?thesis
      by (simp add: pers personality_def)
  next
    case False
    define k where "k = h - Suc personalityFunction"
    have k: "h = Suc personalityFunction + k" "k < functions_size irModule"
      using False that len by (simp_all add: k_def)
    then show ?thesis
      using s1 base names [OF that(2)] by (simp add: shellsCreated_def shellName_not_cxa)
  qed
  have original: "functionName (?F ! h) \<noteq> ''__cxa_begin_catch''" if "h < ?B" for h
  proof -
    have "?F ! h = moduleFunctions outLLVMModule ! h"
      using that by (simp add: early f0 p nth_append)
    moreover have "moduleFunctions outLLVMModule ! h \<in> set (moduleFunctions outLLVMModule)"
      using that by simp
    then have "functionName (moduleFunctions outLLVMModule ! h)
        \<in> functionName ` set (moduleFunctions outLLVMModule)"
      by (rule imageI)
    ultimately show ?thesis
      using assms(2) by auto
  qed
  have iff: "(\<exists>f \<in> set ?F. functionName f = ''__cxa_begin_catch'') \<longleftrightarrow> \<not> USE_WINDOWS_SEH"
  proof
    assume "\<exists>f \<in> set ?F. functionName f = ''__cxa_begin_catch''"
    then obtain h where h: "h < length ?F" "functionName (?F ! h) = ''__cxa_begin_catch''"
      by (auto simp: in_set_conv_nth)
    show "\<not> USE_WINDOWS_SEH"
    proof
      assume "USE_WINDOWS_SEH"
      then have "personalityFunction = ?B" by (simp add: p)
      then show False
        using h late [of h] original [of h] by (cases "h < ?B") simp_all
    qed
  next
    assume no: "\<not> USE_WINDOWS_SEH"
    then have "?B < length ?F"
      by (simp add: len p)
    then have "?F ! ?B \<in> set ?F" by simp
    then show "\<exists>f \<in> set ?F. functionName f = ''__cxa_begin_catch''"
      using cxa [OF no] by (auto simp: cxaBeginCatch_def intro!: bexI [of _ "?F ! ?B"])
  qed
  have x: "cxaBeginCatchFunction moduleContext = cxaBeginCatchFunction c0"
    using s1 d by (simp add: shellsCreated_def defsCompiled_def)
  have handles: "\<forall>k < functions_size irModule.
       functionHandles moduleContext ! k = Some (Suc personalityFunction + k)"
    using s1 d base by (simp add: shellsCreated_def defsCompiled_def)
  show ?thesis
    using pers iff cxa x x0 handles len by (simp add: p)
qed

subsection \<open>The example module\<close>

lemma to_string_digits: "to_string 0 = ''0''" "to_string 1 = ''1''" "to_string 2 = ''2''"
  by code_simp+

lemma to_string_one: "to_string (Suc 0) = ''1''"
  using to_string_digits(2) by simp

lemma example_returns:
  "\<not> isl (emitModule False False exampleIR emptyLLVMModule)"
  by (simp add: emitModule_def Let_def split_def forLoop_def exampleIR_def functions_size_def
      upt_rec [of 0] upt_rec [of 1] upt_rec [of 2] upt_rec [of 3]  upt_rec [of 4]
      createFunctionShell_def functions_getType_def compileFunctionDef_def
      emitModule_externals_typeIds)

lemma example_run:
  "emitModule False False exampleIR emptyLLVMModule
     = Inr (fst exampleEmitted, snd exampleEmitted)"
  using example_returns by (simp add: exampleEmitted_def)

text \<open>The first definition of the example module, of type 1.\<close>

theorem emitModule_prefixData_witness:
  "emitModule False False exampleIR emptyLLVMModule
     = Inr (fst exampleEmitted, snd exampleEmitted) \<and>
   (0 :: nat) < length (functionDefs exampleIR) \<and>
   (\<exists>fn.
      functionHandles (snd exampleEmitted) ! 1 = Some fn \<and>
      functionName (moduleFunctions (llvmModule (snd exampleEmitted)) ! fn)
        = ''functionDef0'' \<and>
      prefixData (moduleFunctions (llvmModule (snd exampleEmitted)) ! fn)
        = Some (ConstantArray (ArrayType_get iptrType 2)
            [PtrToInt (GlobalVariable ''functionDefInstance0'') iptrType,
             PtrToInt (GlobalVariable ''typeId1'') iptrType]) \<and>
      personalityFn (moduleFunctions (llvmModule (snd exampleEmitted)) ! fn)
        = Some (fst exampleEmitted) \<and>
      functionName (moduleFunctions (llvmModule (snd exampleEmitted)) ! fst exampleEmitted)
        = ''__gxx_personality_v0'')"
proof -
  have defs: "(0 :: nat) < length (functionDefs exampleIR)"
    by (simp add: exampleIR_def)
  show ?thesis
    using example_run defs emitModule_prefixData [OF example_run defs]
    by (auto simp: exampleIR_def getExternalName_def to_string_digits to_string_one
        personality_def)
qed

lemma example_returns_SEH:
  "\<not> isl (emitModule True True exampleIR emptyLLVMModule)"
  by (simp add: emitModule_def Let_def split_def forLoop_def exampleIR_def functions_size_def
      upt_rec [of 0] upt_rec [of 1] upt_rec [of 2] upt_rec [of 3]  upt_rec [of 4]
      createFunctionShell_def functions_getType_def compileFunctionDef_def
      emitModule_externals_typeIds)

lemma example_run_SEH:
  "emitModule True True exampleIR emptyLLVMModule
     = Inr (fst exampleEmittedSEH, snd exampleEmittedSEH)"
  using example_returns_SEH by (simp add: exampleEmittedSEH_def)

text \<open>The example module emitted without and with Windows SEH.\<close>

theorem emitModule_exception_symbols_witness:
  "emitModule False False exampleIR emptyLLVMModule
     = Inr (fst exampleEmitted, snd exampleEmitted) \<and>
   emitModule True True exampleIR emptyLLVMModule
     = Inr (fst exampleEmittedSEH, snd exampleEmittedSEH) \<and>
   ''__cxa_begin_catch'' \<notin> functionName ` set (moduleFunctions emptyLLVMModule) \<and>
   functionName (moduleFunctions (llvmModule (snd exampleEmitted)) ! fst exampleEmitted)
     = ''__gxx_personality_v0'' \<and>
   moduleFunctions (llvmModule (snd exampleEmitted)) ! 0 = cxaBeginCatch \<and>
   cxaBeginCatchFunction (snd exampleEmitted) = Some 0 \<and>
   functionName (moduleFunctions (llvmModule (snd exampleEmittedSEH)) ! fst exampleEmittedSEH)
     = ''__C_specific_handler'' \<and>
   cxaBeginCatchFunction (snd exampleEmittedSEH) = None \<and>
   \<not> (\<exists>f \<in> set (moduleFunctions (llvmModule (snd exampleEmittedSEH))).
        functionName f = ''__cxa_begin_catch'')"
proof -
  have fresh: "''__cxa_begin_catch'' \<notin> functionName ` set (moduleFunctions emptyLLVMModule)"
    by (simp add: emptyLLVMModule_def)
  show ?thesis
    using example_run example_run_SEH fresh
      emitModule_exception_symbols [OF example_run fresh]
      emitModule_exception_symbols [OF example_run_SEH fresh]
    by (simp add: emptyLLVMModule_def personality_def)
qed

subsection \<open>Completion\<close>

text \<open>
  \<open>emitModule\<close> completes on every module whose functions have type indices within
  \<open>types\<close>.
\<close>

lemma functions_getType_valid:
  assumes "\<forall>t \<in> set (functionImports ir). t < length (types ir)"
    and "\<forall>d \<in> set (functionDefs ir). type_index d < length (types ir)"
    and "i < functions_size ir"
  shows "\<exists>index. functions_getType ir i = Inr index \<and> index < length (types ir)"
  using assms by (auto simp: functions_getType_def functions_size_def)

lemma emitModule_completes:
  assumes imps: "\<forall>t \<in> set (functionImports ir). t < length (types ir)"
    and defs: "\<forall>d \<in> set (functionDefs ir). type_index d < length (types ir)"
  shows "\<exists>p c. emitModule w seh ir M = Inr (p, c)"
proof -
  define p where "p = fst (emitModule_externals w seh ir M)"
  define c0 where "c0 = (snd (emitModule_externals w seh ir M))
    \<lparr>functionHandles := replicate (functions_size ir) None\<rparr>"
  have "\<exists>c1. forLoop (functions_size ir) (createFunctionShell ir) c0 = Inr c1
      \<and> shellsCreated ir c0 (functions_size ir) c1"
  proof (rule forLoop_total)
    show "shellsCreated ir c0 0 c0"
      by (simp add: shellsCreated_def)
  next
    fix i t
    assume i: "i < functions_size ir" and inv: "shellsCreated ir c0 i t"
    from functions_getType_valid [OF imps defs i]
    obtain t' where step: "createFunctionShell ir i t = Inr t'"
      by (auto simp: createFunctionShell_def Let_def split_def)
    moreover have "shellsCreated ir c0 (Suc i) t'"
      using inv step i by (intro shellsCreated_step) (simp_all add: c0_def)
    ultimately show "\<exists>t'. createFunctionShell ir i t = Inr t' \<and> shellsCreated ir c0 (Suc i) t'"
      by blast
  qed
  then obtain c1 where
    shells: "forLoop (functions_size ir) (createFunctionShell ir) c0 = Inr c1"
    and s1: "shellsCreated ir c0 (functions_size ir) c1"
    by blast
  define firstDef where
    "firstDef = length (moduleFunctions (llvmModule c0)) + length (functionImports ir)"
  have handles: "\<forall>k < length (functionDefs ir).
      functionHandles c1 ! (length (functionImports ir) + k) = Some (firstDef + k)"
    using s1 by (simp add: shellsCreated_def functions_size_def firstDef_def add.assoc)
  have inside: "firstDef + length (functionDefs ir) \<le> length (moduleFunctions (llvmModule c1))"
    using s1 by (simp add: shellsCreated_def functions_size_def firstDef_def)
  have ids: "length (typeIds c1) = length (types ir)"
    using s1 by (simp add: shellsCreated_def c0_def emitModule_externals_typeIds)
  have "\<exists>c. forLoop (length (functionDefs ir)) (compileFunctionDef ir p) c1 = Inr c
      \<and> defsCompiled ir p firstDef c1 (length (functionDefs ir)) c"
  proof (rule forLoop_total)
    show "defsCompiled ir p firstDef c1 0 c1"
      by (simp add: defsCompiled_def)
  next
    fix j t
    assume j: "j < length (functionDefs ir)" and inv: "defsCompiled ir p firstDef c1 j t"
    have "type_index (functionDefs ir ! j) < length (typeIds t)"
      using inv ids defs j by (simp add: defsCompiled_def)
    moreover have "functionHandles t ! (length (functionImports ir) + j) = Some (firstDef + j)"
      using inv handles j by (simp add: defsCompiled_def)
    ultimately obtain t' where step: "compileFunctionDef ir p j t = Inr t'"
      by (auto simp: compileFunctionDef_def Let_def split_def)
    moreover have "defsCompiled ir p firstDef c1 (Suc j) t'"
      using inv step handles inside j by (intro defsCompiled_step) simp_all
    ultimately show "\<exists>t'. compileFunctionDef ir p j t = Inr t' \<and> defsCompiled ir p firstDef c1 (Suc j) t'"
      by blast
  qed
  then obtain c where "forLoop (length (functionDefs ir)) (compileFunctionDef ir p) c1 = Inr c"
    by blast
  then have "emitModule w seh ir M = Inr (p, c)"
    using shells by (simp add: emitModule_def Let_def split_def p_def c0_def)
  then show ?thesis by blast
qed

end

